theory Spec2Isabelle
  imports Main "HOL-Library.Sublist" "HOL-Library.AList"
begin

section \<open>JavaScript values used by the worker\<close>

text \<open>
  Strings are \<open>string\<close>. A property that may be absent, \<open>undefined\<close> or \<open>null\<close> is a
  \<open>string option\<close>. JavaScript's truthiness of such a value: absent and the empty
  string are falsy, every other string is truthy.
\<close>

definition truthy :: "string option \<Rightarrow> bool" where
  "truthy v = (case v of None \<Rightarrow> False | Some s \<Rightarrow> s \<noteq> [])"

text \<open>\<open>a || b\<close>: the left operand when it is truthy, the right operand otherwise.\<close>

definition js_or :: "string option \<Rightarrow> string option \<Rightarrow> string option" where
  "js_or a b = (if truthy a then a else b)"

text \<open>\<open>a || 'literal'\<close>, which always is a string.\<close>

definition js_or_str :: "string option \<Rightarrow> string \<Rightarrow> string" where
  "js_or_str a d = (case a of None \<Rightarrow> d | Some s \<Rightarrow> if s = [] then d else s)"

text \<open>
  \<open>s.replace(pat, rep)\<close> with a string pattern: only the first occurrence of \<open>pat\<close>
  in \<open>s\<close> is replaced, wherever it is.
\<close>

fun replace_first :: "string \<Rightarrow> string \<Rightarrow> string \<Rightarrow> string" where
  "replace_first pat rep [] = (if pat = [] then rep else [])"
| "replace_first pat rep (c # cs) =
     (if prefix pat (c # cs) then rep @ drop (length pat) (c # cs)
      else c # replace_first pat rep cs)"

text \<open>\<open>s.includes(pat)\<close>, \<open>s.startsWith(pat)\<close> and \<open>s.endsWith(pat)\<close>.\<close>

fun str_includes :: "string \<Rightarrow> string \<Rightarrow> bool" where
  "str_includes [] pat = (pat = [])"
| "str_includes (c # cs) pat = (prefix pat (c # cs) \<or> str_includes cs pat)"

definition startsWith :: "string \<Rightarrow> string \<Rightarrow> bool" where
  "startsWith s pat = prefix pat s"

definition endsWith :: "string \<Rightarrow> string \<Rightarrow> bool" where
  "endsWith s pat = prefix (rev pat) (rev s)"

text \<open>Decimal rendering of a number in a template string and by \<open>toString()\<close>.\<close>

definition digit_char :: "nat \<Rightarrow> char" where
  "digit_char d = ''0123456789'' ! d"

fun string_of_nat :: "nat \<Rightarrow> string" where
  "string_of_nat n =
     (if n < 10 then [digit_char n] else string_of_nat (n div 10) @ [digit_char (n mod 10)])"

declare string_of_nat.simps [simp del]

text \<open>\<open>response.ok\<close> of the Fetch API: the status is in the range 200 to 299.\<close>

definition ok :: "nat \<Rightarrow> bool" where
  "ok st = (200 \<le> st \<and> st \<le> 299)"

text \<open>
  What \<open>await response.json()\<close>, \<open>await request.json()\<close> and the property reads that
  follow them give: the value read, or the message of the error thrown (by the parser on
  a body that is not JSON, by a property read on \<open>undefined\<close>).
\<close>

datatype 'a parsed = Parsed 'a | Unparsable string

text \<open>
  A property of a parsed JSON object where the code tells an absent property
  (\<open>undefined\<close>) from \<open>null\<close>.
\<close>

datatype 'a property = Absent | Null | Value 'a

text \<open>
  \<open>xs.sort(comparefn)\<close>. A result \<open>NaN\<close> of the comparator, here \<open>None\<close>, counts as
  \<open>0\<close>, and the sort is stable. It is written as an insertion sort. When the comparator
  is a consistent order, every stable sort gives this result. When it is not (which
  \<open>NaN\<close> results can cause), the language leaves the order to the engine; the insertion
  sort then is the order assumed here.
\<close>

fun sort_insert :: "('a \<Rightarrow> 'a \<Rightarrow> int option) \<Rightarrow> 'a \<Rightarrow> 'a list \<Rightarrow> 'a list" where
  "sort_insert comparefn x [] = [x]"
| "sort_insert comparefn x (y # ys) =
     (if (case comparefn x y of None \<Rightarrow> 0 | Some v \<Rightarrow> v) \<le> 0 then x # y # ys
      else y # sort_insert comparefn x ys)"

definition array_sort :: "('a \<Rightarrow> 'a \<Rightarrow> int option) \<Rightarrow> 'a list \<Rightarrow> 'a list" where
  "array_sort comparefn xs = foldr (sort_insert comparefn) xs []"

section \<open>Configuration\<close>

definition MAX_ARTICLES :: nat where
  "MAX_ARTICLES = 50"

definition SUMMARY_CACHE_TTL :: nat where
  "SUMMARY_CACHE_TTL = 60 * 60 * 24 * 30"

definition maxPages :: nat where
  "maxPages = 10"

section \<open>Data model\<close>

text \<open>
  A document of the upstream list endpoint. \<open>saved_at\<close> is the time value of
  \<open>new Date(doc.saved_at)\<close> in milliseconds since the epoch, \<open>None\<close> when that is \<open>NaN\<close>:
  the property is missing or is no date.
\<close>

record article =
  doc_id :: string
  title :: "string option"
  category :: "string option"
  location :: "string option"
  site_name :: "string option"
  source_url :: "string option"
  content :: "string option"
  html :: "string option"
  text_field :: "string option"
  summary :: "string option"
  notes_field :: "string option"
  url :: "string option"
  saved_at :: "int option"

text \<open>
  An entry of the response of the feed endpoint. (\<open>word_count\<close>, a count of the
  pieces of \<open>content.split(/\s+/)\<close>, is left out: no property below reads it.)
\<close>

record feed_item =
  fi_id :: string
  fi_title :: string
  fi_source :: string
  fi_summary :: string
  fi_content :: string
  fi_url :: "string option"
  fi_readwise_url :: string
  fi_original_url :: "string option"
  fi_location :: "string option"

text \<open>A thrown \<open>Error\<close> with its message.\<close>

datatype error = Error string

text \<open>The responses the worker builds: status and body.\<close>

datatype body =
    NoBody
  | HtmlPage
  | Manifest
  | PlainText string
  | FeedJson "feed_item list" nat string
  | SuccessJson
  | ErrorJson string
  | BrowserTts "string property"
  | AudioStream string

record response =
  status :: nat
  body :: body

text \<open>
  The incoming request: method, \<open>new URL(request.url).pathname\<close>, the \<open>location\<close>
  search parameter, and what \<open>await request.json()\<close> and the destructuring give. Of the
  body, \<open>p_id\<close> is the \<open>id\<close> as the template strings render it; \<open>text\<close> and \<open>voice\<close>, when
  present and not \<open>null\<close>, are strings.
\<close>

record payload =
  p_id :: string
  p_text :: "string property"
  p_voice :: "string property"

record request =
  req_method :: string
  pathname :: string
  location_param :: "string option"
  json :: "payload parsed"

section \<open>Key-value store\<close>

text \<open>
  The store is an object from keys to values, as in \<open>createMockKV\<close>; each entry also
  records the \<open>expirationTtl\<close> it was written with. Expiry itself is not modelled: all
  operations of one property happen within the TTL window.
\<close>

type_synonym kv_store = "(string \<times> (string \<times> nat option)) list"

text \<open>
  The trace of the effects the properties speak about: writes to the store, the
  mutating calls to the article service, and the calls to the summarizer and the
  speech service, in the order in which they are issued.
\<close>

datatype event =
    KvPut string string nat
  | KvDelete string
  | ReadwiseUpdate string string
  | ReadwiseDelete string
  | ClaudeCall string
  | OpenAICall string "string option"

record world =
  kv :: kv_store
  log :: "event list"

text \<open>\<open>get: store[key] || null\<close>: an empty stored value reads as \<open>null\<close>.\<close>

definition kv_get :: "world \<Rightarrow> string \<Rightarrow> string option" where
  "kv_get w key =
     (case map_of (kv w) key of
        None \<Rightarrow> None
      | Some (v, ttl) \<Rightarrow> if v = [] then None else Some v)"

definition kv_put :: "string \<Rightarrow> string \<Rightarrow> nat \<Rightarrow> world \<Rightarrow> world" where
  "kv_put key v ttl w =
     w\<lparr>kv := AList.update key (v, Some ttl) (kv w), log := log w @ [KvPut key v ttl]\<rparr>"

definition kv_delete :: "string \<Rightarrow> world \<Rightarrow> world" where
  "kv_delete key w = w\<lparr>kv := AList.delete key (kv w), log := log w @ [KvDelete key]\<rparr>"

text \<open>\<open>list({prefix})\<close>: the names of the keys that start with the prefix.\<close>

definition kv_list :: "world \<Rightarrow> string \<Rightarrow> string list" where
  "kv_list w pre = filter (\<lambda>k. startsWith k pre) (map fst (kv w))"

definition getHeardIds :: "world \<Rightarrow> string set" where
  "getHeardIds w = set (map (replace_first ''heard:'' '''') (kv_list w ''heard:''))"

definition getLaterIds :: "world \<Rightarrow> string set" where
  "getLaterIds w = set (map (replace_first ''later:'' '''') (kv_list w ''later:''))"

section \<open>External services\<close>

text \<open>
  What the outside world answers. The list endpoint is asked with the number of list
  requests already made in this pass and the page cursor, so a retried request may
  get a different answer; \<open>Retry-After\<close> only sets the length of a pause and is left out.
  An answer of the list endpoint is its status and what \<open>response.json()\<close> gives: the
  properties \<open>results\<close> and \<open>nextPageCursor\<close> of the body. A summarizer answer is its
  status, its raw body \<open>response.text()\<close> (read on failure) and what \<open>response.json()\<close>
  followed by \<open>data.content[0].text\<close> gives (read on success); the text, when these reads
  do not throw, is a string. An answer of the update endpoint is its status and what
  \<open>response.json()\<close> gives. The summarizer and the update and delete endpoints answer as
  functions of the request. The speech service gets the input and the voice (\<open>None\<close> for
  \<open>null\<close>). \<open>url_hostname\<close> is the platform's \<open>new URL(s).hostname\<close>, \<open>None\<close> where the
  constructor throws. \<open>now\<close> is \<open>Date.now()\<close>.
\<close>

record list_data =
  results :: "article list option"
  nextPageCursor :: "string option"

record list_response =
  lr_status :: nat
  lr_json :: "list_data parsed"

record claude_response =
  c_status :: nat
  c_body :: string
  c_text :: "string parsed"

record update_response =
  u_status :: nat
  u_json :: "string parsed"

record services =
  readwise_list :: "nat \<Rightarrow> string option \<Rightarrow> list_response"
  readwise_update :: "string \<Rightarrow> string \<Rightarrow> update_response"
  readwise_delete :: "string \<Rightarrow> nat"
  claude :: "string \<Rightarrow> claude_response"
  openai_key :: "string option"
  openai_tts :: "string \<Rightarrow> string option \<Rightarrow> nat \<times> string"
  url_hostname :: "string \<Rightarrow> string option"
  now :: nat

section \<open>Helpers\<close>

definition extractSource :: "services \<Rightarrow> article \<Rightarrow> string" where
  "extractSource svc article =
     (if truthy (site_name article) then the (site_name article)
      else if truthy (source_url article) then
        (case url_hostname svc (the (source_url article)) of
           Some hostname \<Rightarrow> replace_first ''www.'' '''' hostname
         | None \<Rightarrow> ''Unknown source'')
      else ''Unknown source'')"

text \<open>The entry of the feed response built for an article and its summary.\<close>

definition feedItem :: "services \<Rightarrow> article \<Rightarrow> string \<Rightarrow> feed_item" where
  "feedItem svc article text =
     \<lparr>fi_id = doc_id article,
      fi_title = js_or_str (title article) ''Untitled'',
      fi_source = extractSource svc article,
      fi_summary = text,
      fi_content = js_or_str (js_or (js_or (content article) (html article)) (text_field article)) [],
      fi_url = url article,
      fi_readwise_url = ''https://readwise.io/reader/document/'' @ doc_id article,
      fi_original_url = js_or (source_url article) (url article),
      fi_location = location article\<rparr>"

section \<open>Summarizer and summary cache\<close>

definition userPrompt :: "services \<Rightarrow> article \<Rightarrow> string" where
  "userPrompt svc article =
     ''Article from '' @ extractSource svc article @ '':'' @ [CHR 0x0A]
     @ ''Title: '' @ js_or_str (title article) ''Untitled'' @ [CHR 0x0A, CHR 0x0A]
     @ ''Content:'' @ [CHR 0x0A]
     @ take 8000 (js_or_str (js_or (js_or (content article) (summary article)) (notes_field article)) [])"

definition summarizeArticle :: "services \<Rightarrow> article \<Rightarrow> world \<Rightarrow> (error + string) \<times> world" where
  "summarizeArticle svc article w =
     (let prompt = userPrompt svc article;
          w1 = w\<lparr>log := log w @ [ClaudeCall prompt]\<rparr>;
          response = claude svc prompt
      in if \<not> ok (c_status response)
         then (Inl (Error (''Claude API error: '' @ string_of_nat (c_status response)
                           @ '' - '' @ c_body response)), w1)
         else (case c_text response of
                 Unparsable message \<Rightarrow> (Inl (Error message), w1)
               | Parsed text \<Rightarrow> (Inr text, w1)))"

definition getCachedOrSummarize :: "services \<Rightarrow> article \<Rightarrow> world \<Rightarrow> (error + string) \<times> world" where
  "getCachedOrSummarize svc article w =
     (let cacheKey = ''summary:'' @ doc_id article;
          cached = kv_get w cacheKey
      in if truthy cached then (Inr (the cached), w)
         else (case summarizeArticle svc article w of
                 (Inl e, w1) \<Rightarrow> (Inl e, w1)
               | (Inr text, w1) \<Rightarrow> (Inr text, kv_put cacheKey text SUMMARY_CACHE_TTL w1)))"

section \<open>Article list client\<close>

text \<open>The filter applied to the documents of each page.\<close>

definition doc_filter :: "string \<Rightarrow> article \<Rightarrow> bool" where
  "doc_filter locationFilter doc =
     (if category doc \<noteq> Some ''article'' then False
      else if location doc = Some ''archive'' then False
      else if locationFilter = ''feed''
        then location doc = Some ''new'' \<or> location doc = Some ''feed''
      else if locationFilter = ''library''
        then location doc = Some ''later'' \<or> location doc = Some ''shortlist''
      else True)"

text \<open>
  The inner \<open>while (retries > 0)\<close> loop: the request is repeated while the answer is
  429 and retries are left. It returns the last response (\<open>None\<close> if the loop body never
  ran) and the number of list requests made so far.
\<close>

fun retry_loop ::
  "nat \<Rightarrow> (nat \<Rightarrow> list_response) \<Rightarrow> nat \<Rightarrow> list_response option \<Rightarrow> list_response option \<times> nat"
where
  "retry_loop 0 api n response = (response, n)"
| "retry_loop (Suc retries) api n response =
     (let r = api n
      in if lr_status r = 429 then retry_loop retries api (Suc n) (Some r)
         else (Some r, Suc n))"

definition cursor_param :: "string option \<Rightarrow> string option" where
  "cursor_param nextCursor = (if truthy nextCursor then nextCursor else None)"

text \<open>
  One iteration of the \<open>do ... while (nextCursor)\<close> loop and the iterations after it:
  \<open>pageCount\<close>, \<open>allArticles\<close> and \<open>nextCursor\<close> are the loop's variables, \<open>n\<close> counts the
  list requests made.
\<close>

function fetch_pages ::
  "services \<Rightarrow> string \<Rightarrow> nat \<Rightarrow> article list \<Rightarrow> string option \<Rightarrow> nat \<Rightarrow> error + article list"
where
  "fetch_pages svc locationFilter pageCount allArticles nextCursor n =
     (case retry_loop 3 (\<lambda>k. readwise_list svc k (cursor_param nextCursor)) n None of
        (None, n') \<Rightarrow> Inl (Error ''response is undefined'')
      | (Some response, n') \<Rightarrow>
          if \<not> ok (lr_status response)
          then Inl (Error (''Readwise API error: '' @ string_of_nat (lr_status response)))
          else
            (case lr_json response of
               Unparsable message \<Rightarrow> Inl (Error message)
             | Parsed data \<Rightarrow>
                 (let articles = filter (doc_filter locationFilter)
                                   (case results data of None \<Rightarrow> [] | Some ds \<Rightarrow> ds);
                      allArticles' = allArticles @ articles
                  in if length allArticles' \<ge> MAX_ARTICLES \<or> Suc pageCount \<ge> maxPages
                     then Inr allArticles'
                     else if truthy (nextPageCursor data)
                       then fetch_pages svc locationFilter (Suc pageCount) allArticles'
                              (nextPageCursor data) n'
                     else Inr allArticles')))"
  by pat_completeness auto
termination
  by (relation "measure (\<lambda>(svc, locationFilter, pageCount, allArticles, nextCursor, n).
                            maxPages - pageCount)") auto

text \<open>
  The documents of the pages that this loop reads, unfiltered, in the order read: the
  same iterations as \<open>fetch_pages\<close>, collecting \<open>data.results\<close>.
\<close>

function pages_read ::
  "services \<Rightarrow> string \<Rightarrow> nat \<Rightarrow> article list \<Rightarrow> string option \<Rightarrow> nat \<Rightarrow> article list"
where
  "pages_read svc locationFilter pageCount allArticles nextCursor n =
     (case retry_loop 3 (\<lambda>k. readwise_list svc k (cursor_param nextCursor)) n None of
        (None, n') \<Rightarrow> []
      | (Some response, n') \<Rightarrow>
          if \<not> ok (lr_status response) then []
          else
            (case lr_json response of
               Unparsable message \<Rightarrow> []
             | Parsed data \<Rightarrow>
                 (let docs = (case results data of None \<Rightarrow> [] | Some ds \<Rightarrow> ds);
                      allArticles' = allArticles @ filter (doc_filter locationFilter) docs
                  in if length allArticles' \<ge> MAX_ARTICLES \<or> Suc pageCount \<ge> maxPages
                     then docs
                     else if truthy (nextPageCursor data)
                       then docs @ pages_read svc locationFilter (Suc pageCount) allArticles'
                                     (nextPageCursor data) n'
                     else docs)))"
  by pat_completeness auto
termination
  by (relation "measure (\<lambda>(svc, locationFilter, pageCount, allArticles, nextCursor, n).
                            maxPages - pageCount)") auto

declare fetch_pages.simps [simp del] pages_read.simps [simp del]

text \<open>
  The comparator \<open>(a, b) => new Date(b.saved_at) - new Date(a.saved_at)\<close>: the difference
  of the two time values, \<open>NaN\<close> when one of them is.
\<close>

definition by_saved_at :: "article \<Rightarrow> article \<Rightarrow> int option" where
  "by_saved_at a b =
     (case saved_at b of
        None \<Rightarrow> None
      | Some tb \<Rightarrow> (case saved_at a of None \<Rightarrow> None | Some ta \<Rightarrow> Some (tb - ta)))"

definition fetchAllReadwiseArticles :: "services \<Rightarrow> string \<Rightarrow> error + article list" where
  "fetchAllReadwiseArticles svc locationFilter =
     (case fetch_pages svc locationFilter 0 [] None 0 of
        Inl e \<Rightarrow> Inl e
      | Inr allArticles \<Rightarrow> Inr (array_sort by_saved_at allArticles))"

definition updateReadwiseDocument ::
  "services \<Rightarrow> string \<Rightarrow> string \<Rightarrow> world \<Rightarrow> (error + string) \<times> world" where
  "updateReadwiseDocument svc ident new_location w =
     (let w1 = w\<lparr>log := log w @ [ReadwiseUpdate ident new_location]\<rparr>;
          response = readwise_update svc ident new_location
      in if \<not> ok (u_status response)
         then (Inl (Error (''Readwise update error: '' @ string_of_nat (u_status response))), w1)
         else (case u_json response of
                 Unparsable message \<Rightarrow> (Inl (Error message), w1)
               | Parsed document \<Rightarrow> (Inr document, w1)))"

definition deleteReadwiseDocument ::
  "services \<Rightarrow> string \<Rightarrow> world \<Rightarrow> (error + bool) \<times> world" where
  "deleteReadwiseDocument svc ident w =
     (let w1 = w\<lparr>log := log w @ [ReadwiseDelete ident]\<rparr>;
          st = readwise_delete svc ident
      in if \<not> ok st \<and> st \<noteq> 404
         then (Inl (Error (''Readwise delete error: '' @ string_of_nat st)), w1)
         else (Inr True, w1))"

section \<open>API handlers\<close>

text \<open>
  The body of the \<open>for\<close> loop over the capped candidates, as a recursion over the list:
  a summary that is obtained adds an entry and consumes the article's \<open>later\<close> marker, a
  failure is caught and the loop goes on with the next article.
\<close>

fun summarize_loop ::
  "services \<Rightarrow> string set \<Rightarrow> article list \<Rightarrow> world \<Rightarrow> feed_item list \<times> world"
where
  "summarize_loop svc laterIds [] w = ([], w)"
| "summarize_loop svc laterIds (article # rest) w =
     (case getCachedOrSummarize svc article w of
        (Inl e, w1) \<Rightarrow> summarize_loop svc laterIds rest w1
      | (Inr text, w1) \<Rightarrow>
          (let w2 = (if doc_id article \<in> laterIds
                     then kv_delete (''later:'' @ doc_id article) w1 else w1);
               (summaries, w3) = summarize_loop svc laterIds rest w2
           in (feedItem svc article text # summaries, w3)))"

text \<open>Step 3 of the feed handler: the filter on the heard and later markers.\<close>

definition newArticles :: "string set \<Rightarrow> string set \<Rightarrow> article list \<Rightarrow> article list" where
  "newArticles heardIds laterIds articles =
     filter (\<lambda>article. \<not> (doc_id article \<in> heardIds) \<or> doc_id article \<in> laterIds) articles"

definition handleFeed :: "services \<Rightarrow> request \<Rightarrow> world \<Rightarrow> (error + response) \<times> world" where
  "handleFeed svc req w =
     (let loc = js_or_str (location_param req) ''all''
      in case fetchAllReadwiseArticles svc loc of
           Inl e \<Rightarrow> (Inl e, w)
         | Inr articles \<Rightarrow>
             (let heardIds = getHeardIds w;
                  laterIds = getLaterIds w;
                  new = newArticles heardIds laterIds articles;
                  (summaries, w') = summarize_loop svc laterIds (take MAX_ARTICLES new) w
              in (Inr \<lparr>status = 200, body = FeedJson summaries (length new) loc\<rparr>, w')))"

definition handleTTS :: "services \<Rightarrow> request \<Rightarrow> world \<Rightarrow> (error + response) \<times> world" where
  "handleTTS svc req w =
     (case json req of
        Unparsable message \<Rightarrow> (Inl (Error message), w)
      | Parsed p \<Rightarrow>
          (let voice = (case p_voice p of Absent \<Rightarrow> Some ''alloy'' | Null \<Rightarrow> None
                        | Value v \<Rightarrow> Some v)
           in if \<not> truthy (openai_key svc)
              then (Inr \<lparr>status = 200, body = BrowserTts (p_text p)\<rparr>, w)
              else
                (case p_text p of
                   Absent \<Rightarrow>
                     (Inl (Error ''Cannot read properties of undefined (reading 'slice')''), w)
                 | Null \<Rightarrow>
                     (Inl (Error ''Cannot read properties of null (reading 'slice')''), w)
                 | Value text \<Rightarrow>
                     (let w1 = w\<lparr>log := log w @ [OpenAICall (take 4096 text) voice]\<rparr>;
                          (st, audio) = openai_tts svc (take 4096 text) voice
                      in if \<not> ok st
                         then (Inr \<lparr>status = 200, body = BrowserTts (p_text p)\<rparr>, w1)
                         else (Inr \<lparr>status = 200, body = AudioStream audio\<rparr>, w1)))))"

definition handleArchive :: "services \<Rightarrow> request \<Rightarrow> world \<Rightarrow> (error + response) \<times> world" where
  "handleArchive svc req w =
     (case json req of
        Unparsable message \<Rightarrow> (Inl (Error message), w)
      | Parsed p \<Rightarrow>
          (let w1 = kv_put (''heard:'' @ p_id p) (string_of_nat (now svc)) (60 * 60 * 24 * 30) w
           in case updateReadwiseDocument svc (p_id p) ''archive'' w1 of
                (Inl e, w2) \<Rightarrow> (Inl e, w2)
              | (Inr document, w2) \<Rightarrow> (Inr \<lparr>status = 200, body = SuccessJson\<rparr>, w2)))"

definition handleDelete :: "services \<Rightarrow> request \<Rightarrow> world \<Rightarrow> (error + response) \<times> world" where
  "handleDelete svc req w =
     (case json req of
        Unparsable message \<Rightarrow> (Inl (Error message), w)
      | Parsed p \<Rightarrow>
          (let w1 = kv_put (''heard:'' @ p_id p) (string_of_nat (now svc)) (60 * 60 * 24 * 30) w
           in case deleteReadwiseDocument svc (p_id p) w1 of
                (Inl e, w2) \<Rightarrow> (Inl e, w2)
              | (Inr b, w2) \<Rightarrow> (Inr \<lparr>status = 200, body = SuccessJson\<rparr>, w2)))"

definition handleLater :: "services \<Rightarrow> request \<Rightarrow> world \<Rightarrow> (error + response) \<times> world" where
  "handleLater svc req w =
     (case json req of
        Unparsable message \<Rightarrow> (Inl (Error message), w)
      | Parsed p \<Rightarrow>
          (let w1 = kv_put (''later:'' @ p_id p) (string_of_nat (now svc)) (60 * 60 * 24 * 7) w;
               w2 = kv_delete (''heard:'' @ p_id p) w1
           in (Inr \<lparr>status = 200, body = SuccessJson\<rparr>, w2)))"

section \<open>Main handler\<close>

text \<open>The \<open>try\<close> block of the main handler: the first route that matches is taken.\<close>

definition route :: "services \<Rightarrow> request \<Rightarrow> world \<Rightarrow> (error + response) \<times> world" where
  "route svc req w =
     (let path = pathname req
      in if path = ''/'' \<or> endsWith path ''/index.html''
           then (Inr \<lparr>status = 200, body = HtmlPage\<rparr>, w)
         else if str_includes path ''/api/feed''
           then handleFeed svc req w
         else if str_includes path ''/api/tts'' \<and> req_method req = ''POST''
           then handleTTS svc req w
         else if str_includes path ''/api/archive'' \<and> req_method req = ''POST''
           then handleArchive svc req w
         else if str_includes path ''/api/delete'' \<and> req_method req = ''POST''
           then handleDelete svc req w
         else if str_includes path ''/api/later'' \<and> req_method req = ''POST''
           then handleLater svc req w
         else if path = ''/manifest.json''
           then (Inr \<lparr>status = 200, body = Manifest\<rparr>, w)
         else (Inr \<lparr>status = 404, body = PlainText ''Not Found''\<rparr>, w))"

text \<open>The main handler: preflight, the routes, and the \<open>catch\<close> that answers 500.\<close>

definition fetch :: "services \<Rightarrow> request \<Rightarrow> world \<Rightarrow> response \<times> world" where
  "fetch svc req w =
     (if req_method req = ''OPTIONS'' then (\<lparr>status = 200, body = NoBody\<rparr>, w)
      else case route svc req w of
             (Inl (Error message), w') \<Rightarrow> (\<lparr>status = 500, body = ErrorJson message\<rparr>, w')
           | (Inr response, w') \<Rightarrow> (response, w'))"

section \<open>Notions used in the statements\<close>

text \<open>The \<open>if (laterIds.has(article.id))\<close> statement of the feed loop, on its own.\<close>

definition consume_later :: "string set \<Rightarrow> article \<Rightarrow> world \<Rightarrow> world" where
  "consume_later laterIds a w =
     (if doc_id a \<in> laterIds then kv_delete (''later:'' @ doc_id a) w else w)"

text \<open>The ids of the articles in the answer of the feed handler; none when it failed.\<close>

definition served_ids :: "error + response \<Rightarrow> string set" where
  "served_ids result =
     (case result of
        Inl e \<Rightarrow> {}
      | Inr r \<Rightarrow> (case body r of FeedJson items n loc \<Rightarrow> fi_id ` set items | _ \<Rightarrow> {}))"

text \<open>
  The summarizer's answer for an article yields a summary: the status is a success and
  the text can be read off the body.
\<close>

definition generates :: "services \<Rightarrow> article \<Rightarrow> bool" where
  "generates svc article =
     (let response = claude svc (userPrompt svc article)
      in ok (c_status response)
         \<and> (case c_text response of Parsed text \<Rightarrow> True | Unparsable message \<Rightarrow> False))"

text \<open>The number of requests sent to the summarizer, read off a trace.\<close>

definition claude_calls :: "event list \<Rightarrow> nat" where
  "claude_calls evs = length (filter (\<lambda>e. case e of ClaudeCall p \<Rightarrow> True | _ \<Rightarrow> False) evs)"

section \<open>Example environments\<close>

definition blank_article :: article where
  "blank_article = \<lparr>doc_id = [], title = None, category = None, location = None,
     site_name = None, source_url = None, content = None, html = None, text_field = None,
     summary = None, notes_field = None, url = None, saved_at = None\<rparr>"

text \<open>Services that answer every request with success and an empty list of documents.\<close>

definition quiet_services :: services where
  "quiet_services =
     \<lparr>readwise_list =
        (\<lambda>n c. \<lparr>lr_status = 200,
                 lr_json = Parsed \<lparr>results = None, nextPageCursor = None\<rparr>\<rparr>),
      readwise_update = (\<lambda>i l. \<lparr>u_status = 200, u_json = Parsed ''{}''\<rparr>),
      readwise_delete = (\<lambda>i. 204),
      claude = (\<lambda>p. \<lparr>c_status = 200, c_body = [], c_text = Parsed ''A short summary.''\<rparr>),
      openai_key = None,
      openai_tts = (\<lambda>t v. (200, [])),
      url_hostname = (\<lambda>u. None),
      now = 1700000000000\<rparr>"

definition failing_update :: services where
  "failing_update = quiet_services\<lparr>readwise_update :=
      (\<lambda>i l. \<lparr>u_status = 503, u_json = Unparsable ''Unexpected token < in JSON''\<rparr>)\<rparr>"

text \<open>An update endpoint that answers 204 with an empty body.\<close>

definition empty_update :: services where
  "empty_update = quiet_services\<lparr>readwise_update :=
      (\<lambda>i l. \<lparr>u_status = 204, u_json = Unparsable ''Unexpected end of JSON input''\<rparr>)\<rparr>"

definition empty_world :: world where
  "empty_world = \<lparr>kv = [], log = []\<rparr>"

definition archive_request :: request where
  "archive_request =
     \<lparr>req_method = ''POST'', pathname = ''/api/archive'', location_param = None,
      json = Parsed \<lparr>p_id = ''a1'', p_text = Absent, p_voice = Absent\<rparr>\<rparr>"

text \<open>Three documents on one page: one in the feed, a newer one saved for later, one archived.\<close>

definition art1 :: article where
  "art1 = blank_article\<lparr>doc_id := ''a1'', category := Some ''article'',
      location := Some ''feed'', saved_at := Some 200\<rparr>"

definition art2 :: article where
  "art2 = blank_article\<lparr>doc_id := ''a2'', category := Some ''article'',
      location := Some ''later'', saved_at := Some 300\<rparr>"

definition art3 :: article where
  "art3 = blank_article\<lparr>doc_id := ''a3'', category := Some ''article'',
      location := Some ''archive'', saved_at := Some 400\<rparr>"

definition three_docs :: services where
  "three_docs = quiet_services\<lparr>readwise_list :=
      (\<lambda>n c. \<lparr>lr_status = 200,
               lr_json = Parsed \<lparr>results = Some [art1, art2, art3],
                                 nextPageCursor = None\<rparr>\<rparr>)\<rparr>"

text \<open>One document upstream, and a summarizer that answers 429 to every request.\<close>

definition rate_limited :: services where
  "rate_limited = quiet_services\<lparr>
      readwise_list :=
        (\<lambda>n c. \<lparr>lr_status = 200,
                 lr_json = Parsed \<lparr>results = Some [art1], nextPageCursor = None\<rparr>\<rparr>),
      claude := (\<lambda>p. \<lparr>c_status = 429, c_body = ''Rate limited'',
                        c_text = Unparsable ''Unexpected token R in JSON''\<rparr>)\<rparr>"

text \<open>
  Two documents upstream, and a summarizer that answers 200 with an empty body to the
  request for the one titled \<open>First\<close>.
\<close>

definition doc_first :: article where
  "doc_first = blank_article\<lparr>doc_id := ''d1'', title := Some ''First'',
      category := Some ''article'', location := Some ''new'', saved_at := Some 500\<rparr>"

definition doc_second :: article where
  "doc_second = blank_article\<lparr>doc_id := ''d2'', title := Some ''Second'',
      category := Some ''article'', location := Some ''new'', saved_at := Some 400\<rparr>"

definition malformed_first :: services where
  "malformed_first = quiet_services\<lparr>
      readwise_list :=
        (\<lambda>n c. \<lparr>lr_status = 200,
                 lr_json = Parsed \<lparr>results = Some [doc_first, doc_second],
                                   nextPageCursor = None\<rparr>\<rparr>),
      claude :=
        (\<lambda>p. if str_includes p ''Title: First''
             then \<lparr>c_status = 200, c_body = [],
                   c_text = Unparsable ''Unexpected end of JSON input''\<rparr>
             else \<lparr>c_status = 200, c_body = [], c_text = Parsed ''A short summary.''\<rparr>)\<rparr>"





text \<open>A summarizer that answers with success and an empty text.\<close>

definition empty_summary :: services where
  "empty_summary =
     quiet_services\<lparr>claude := (\<lambda>p. \<lparr>c_status = 200, c_body = [], c_text = Parsed []\<rparr>)\<rparr>"

definition already_deleted :: services where
  "already_deleted = quiet_services\<lparr>readwise_delete := (\<lambda>i. 404)\<rparr>"

definition failing_delete :: services where
  "failing_delete = quiet_services\<lparr>readwise_delete := (\<lambda>i. 500)\<rparr>"

text \<open>A platform on which the URL below has the host name \<open>notwww.example.com\<close>.\<close>

definition example_hosts :: services where
  "example_hosts = quiet_services\<lparr>url_hostname :=
      [''https://notwww.example.com/a'' \<mapsto> ''notwww.example.com'']\<rparr>"

definition feed_request :: request where
  "feed_request =
     \<lparr>req_method = ''GET'', pathname = ''/api/feed'', location_param = None,
      json = Unparsable ''Unexpected end of JSON input''\<rparr>"

definition feed_scope_request :: request where
  "feed_scope_request =
     \<lparr>req_method = ''GET'', pathname = ''/api/feed'', location_param = Some ''feed'',
      json = Unparsable ''Unexpected end of JSON input''\<rparr>"

definition later_request :: request where
  "later_request =
     \<lparr>req_method = ''POST'', pathname = ''/api/later'', location_param = None,
      json = Parsed \<lparr>p_id = ''a1'', p_text = Absent, p_voice = Absent\<rparr>\<rparr>"

definition delete_request :: request where
  "delete_request =
     \<lparr>req_method = ''POST'', pathname = ''/api/delete'', location_param = None,
      json = Parsed \<lparr>p_id = ''a1'', p_text = Absent, p_voice = Absent\<rparr>\<rparr>"

definition tts_request :: request where
  "tts_request =
     \<lparr>req_method = ''GET'', pathname = ''/api/tts'', location_param = None,
      json = Unparsable ''Unexpected end of JSON input''\<rparr>"

definition index_under_feed :: request where
  "index_under_feed =
     \<lparr>req_method = ''GET'', pathname = ''/api/feed/index.html'', location_param = None,
      json = Unparsable ''Unexpected end of JSON input''\<rparr>"

text \<open>A store in which the id \<open>a1\<close> holds both markers.\<close>

definition heard_and_later :: world where
  "heard_and_later =
     \<lparr>kv = [(''heard:a1'', (''1690000000000'', Some 2592000)),
            (''later:a1'', (''1690000000001'', Some 604800))],
      log = []\<rparr>"

text \<open>
  Upstream refuses the list request; upstream is busy for ever; upstream is busy twice.
\<close>

definition unauthorized :: services where
  "unauthorized = quiet_services\<lparr>readwise_list :=
      (\<lambda>n c. \<lparr>lr_status = 401, lr_json = Unparsable ''Unexpected end of JSON input''\<rparr>)\<rparr>"

definition always_429 :: services where
  "always_429 = quiet_services\<lparr>readwise_list :=
      (\<lambda>n c. \<lparr>lr_status = 429, lr_json = Unparsable ''Unexpected end of JSON input''\<rparr>)\<rparr>"

definition busy_twice :: services where
  "busy_twice = quiet_services\<lparr>readwise_list :=
      (\<lambda>n c. if n < 2
             then \<lparr>lr_status = 429, lr_json = Unparsable ''Unexpected end of JSON input''\<rparr>
             else \<lparr>lr_status = 200,
                   lr_json = Parsed \<lparr>results = Some [art1], nextPageCursor = None\<rparr>\<rparr>)\<rparr>"

text \<open>
  The host names of the URLs in the examples of the source derivation.
\<close>

definition spec_hosts :: services where
  "spec_hosts = quiet_services\<lparr>url_hostname :=
      [''https://www.example.com/a'' \<mapsto> ''www.example.com'',
       ''https://blog.example.com/a'' \<mapsto> ''blog.example.com'']\<rparr>"

text \<open>
  A speech service that knows one voice, and a request for speech.
\<close>

definition with_key :: services where
  "with_key = quiet_services\<lparr>openai_key := Some ''sk-test'',
      openai_tts := (\<lambda>t v. if v = Some ''alloy'' then (200, ''mp3'') else (500, []))\<rparr>"

definition tts_post :: request where
  "tts_post =
     \<lparr>req_method = ''POST'', pathname = ''/api/tts'', location_param = None,
      json = Parsed \<lparr>p_id = [], p_text = Value ''Hello world'', p_voice = Absent\<rparr>\<rparr>"

section \<open>Properties\<close>

subsection \<open>Strings, lists and the key-value store\<close>

lemma replace_first_prefix: "pat \<noteq> [] \<Longrightarrow> replace_first pat rep (pat @ s) = rep @ s"
  by (cases pat) auto

lemma prefix_replace_first:
  "pat \<noteq> [] \<Longrightarrow> prefix pat k \<Longrightarrow> pat @ replace_first pat [] k = k"
  by (auto simp: prefix_def replace_first_prefix)

lemma mem_ids:
  "pat \<noteq> [] \<Longrightarrow>
   i \<in> set (map (replace_first pat []) (filter (\<lambda>k. startsWith k pat) (map fst al)))
    \<longleftrightarrow> map_of al (pat @ i) \<noteq> None"
proof (induction al)
  case Nil
  then show ?case by simp
next
  case (Cons p al)
  then show ?case
    by (cases p) (auto simp: startsWith_def prefix_replace_first replace_first_prefix)
qed

lemma mem_getHeardIds: "i \<in> getHeardIds w \<longleftrightarrow> map_of (kv w) (''heard:'' @ i) \<noteq> None"
  unfolding getHeardIds_def kv_list_def by (rule mem_ids) simp

lemma mem_getLaterIds: "i \<in> getLaterIds w \<longleftrightarrow> map_of (kv w) (''later:'' @ i) \<noteq> None"
  unfolding getLaterIds_def kv_list_def by (rule mem_ids) simp

lemma kv_kv_put: "map_of (kv (kv_put k v t w)) k' = (if k' = k then Some (v, Some t) else map_of (kv w) k')"
  by (simp add: kv_put_def update_conv')

lemma kv_kv_delete: "map_of (kv (kv_delete k w)) k' = (if k' = k then None else map_of (kv w) k')"
  by (simp add: kv_delete_def delete_conv')

lemma kv_get_cong: "map_of (kv w') k = map_of (kv w) k \<Longrightarrow> kv_get w' k = kv_get w k"
  by (simp add: kv_get_def)

lemma kv_get_delete_other:
  "k \<noteq> k' \<Longrightarrow> kv_get (kv_delete k' w) k = kv_get w k"
  by (simp add: kv_get_def kv_kv_delete)

lemma claude_calls_append [simp]:
  "claude_calls (xs @ ys) = claude_calls xs + claude_calls ys"
  by (simp add: claude_calls_def)

lemma subseq_set: "subseq xs ys \<Longrightarrow> set xs \<subseteq> set ys"
  by (auto dest: list_emb_set)



subsection \<open>Routes\<close>

lemma route_archive:
  "pathname req = ''/api/archive'' \<Longrightarrow> req_method req = ''POST'' \<Longrightarrow>
   route svc req w = handleArchive svc req w"
  by (simp add: route_def endsWith_def)

lemma route_delete:
  "pathname req = ''/api/delete'' \<Longrightarrow> req_method req = ''POST'' \<Longrightarrow>
   route svc req w = handleDelete svc req w"
  by (simp add: route_def endsWith_def)

lemma route_later:
  "pathname req = ''/api/later'' \<Longrightarrow> req_method req = ''POST'' \<Longrightarrow>
   route svc req w = handleLater svc req w"
  by (simp add: route_def endsWith_def)

lemma route_feed:
  "pathname req = ''/api/feed'' \<Longrightarrow> route svc req w = handleFeed svc req w"
  by (simp add: route_def endsWith_def)

subsection \<open>The source label\<close>

lemma replace_first_absent: "\<not> str_includes s pat \<Longrightarrow> replace_first pat rep s = s"
  by (induction s) auto

subsection \<open>The summary cache\<close>

lemma gcs_fst:
  "fst (getCachedOrSummarize svc a w) =
     (if truthy (kv_get w (''summary:'' @ doc_id a)) then Inr (the (kv_get w (''summary:'' @ doc_id a)))
      else if \<not> ok (c_status (claude svc (userPrompt svc a)))
      then Inl (Error (''Claude API error: '' @ string_of_nat (c_status (claude svc (userPrompt svc a)))
                           @ '' - '' @ c_body (claude svc (userPrompt svc a))))
      else (case c_text (claude svc (userPrompt svc a)) of
              Unparsable message \<Rightarrow> Inl (Error message)
            | Parsed text \<Rightarrow> Inr text))"
  by (simp add: getCachedOrSummarize_def summarizeArticle_def Let_def split: parsed.splits)

lemma gcs_kv:
  "map_of (kv (snd (getCachedOrSummarize svc a w))) k =
     (if k = ''summary:'' @ doc_id a \<and> \<not> truthy (kv_get w (''summary:'' @ doc_id a))
          \<and> generates svc a
      then Some (case c_text (claude svc (userPrompt svc a)) of Parsed text \<Rightarrow> text,
                 Some SUMMARY_CACHE_TTL)
      else map_of (kv w) k)"
  by (simp add: getCachedOrSummarize_def summarizeArticle_def generates_def Let_def kv_put_def
      update_conv' split: parsed.splits)

lemma gcs_Inr_iff:
  "(\<exists>s. fst (getCachedOrSummarize svc a w) = Inr s) \<longleftrightarrow>
     truthy (kv_get w (''summary:'' @ doc_id a)) \<or> generates svc a"
  by (simp add: gcs_fst generates_def Let_def split: parsed.splits)

lemma gcs_other_key:
  "k \<noteq> ''summary:'' @ doc_id a \<Longrightarrow> kv_get (snd (getCachedOrSummarize svc a w)) k = kv_get w k"
  by (simp add: kv_get_def gcs_kv)

lemma gcs_truthy_mono:
  assumes "truthy (kv_get w k)"
  shows "truthy (kv_get (snd (getCachedOrSummarize svc a w)) k)"
proof (cases "k = ''summary:'' @ doc_id a")
  case True
  with assms show ?thesis by (simp add: getCachedOrSummarize_def)
next
  case False
  with assms show ?thesis by (simp add: gcs_other_key)
qed

lemma gcs_fail_key:
  "\<not> generates svc a \<Longrightarrow>
   kv_get (snd (getCachedOrSummarize svc a w)) k = kv_get w k"
  by (simp add: kv_get_def gcs_kv)

lemma gcs_kv_other:
  "\<not> prefix ''summary:'' k \<Longrightarrow> map_of (kv (snd (getCachedOrSummarize svc a w))) k = map_of (kv w) k"
  by (auto simp add: gcs_kv)

subsection \<open>The feed loop\<close>

lemma loop_Cons:
  "summarize_loop svc L (a # rest) w =
     (case fst (getCachedOrSummarize svc a w) of
        Inl e \<Rightarrow> summarize_loop svc L rest (snd (getCachedOrSummarize svc a w))
      | Inr s \<Rightarrow>
          (feedItem svc a s #
             fst (summarize_loop svc L rest (consume_later L a (snd (getCachedOrSummarize svc a w)))),
           snd (summarize_loop svc L rest (consume_later L a (snd (getCachedOrSummarize svc a w))))))"
  by (simp add: consume_later_def split: prod.splits sum.splits)

lemma kv_get_consume_later:
  "k \<noteq> ''later:'' @ doc_id a \<Longrightarrow> kv_get (consume_later L a w) k = kv_get w k"
  by (simp add: consume_later_def kv_get_delete_other)

lemma consume_later_kv:
  "map_of (kv (consume_later L a w)) k =
     (if doc_id a \<in> L \<and> k = ''later:'' @ doc_id a then None else map_of (kv w) k)"
  by (simp add: consume_later_def kv_kv_delete)

lemma fi_id_feedItem [simp]: "fi_id (feedItem svc a s) = doc_id a"
  by (simp add: feedItem_def)

lemma loop_include:
  "a \<in> set arts \<Longrightarrow>
   truthy (kv_get w (''summary:'' @ doc_id a)) \<or> generates svc a \<Longrightarrow>
   doc_id a \<in> fi_id ` set (fst (summarize_loop svc L arts w))"
proof (induction arts arbitrary: w)
  case Nil
  then show ?case by simp
next
  case (Cons b rest)
  let ?r = "getCachedOrSummarize svc b w"
  show ?case
  proof (cases "a = b")
    case True
    with Cons.prems(2) obtain s where "fst ?r = Inr s"
      using gcs_Inr_iff by blast
    with True show ?thesis by (simp add: loop_Cons del: summarize_loop.simps)
  next
    case False
    with Cons.prems(1) have mem: "a \<in> set rest" by simp
    from Cons.prems(2)
    have later: "truthy (kv_get (snd ?r) (''summary:'' @ doc_id a))
                 \<or> generates svc a"
      using gcs_truthy_mono by blast
    show ?thesis
    proof (cases "fst ?r")
      case (Inl e)
      with Cons.IH [OF mem later] show ?thesis
        by (simp add: loop_Cons del: summarize_loop.simps)
    next
      case (Inr s)
      from later have "truthy (kv_get (consume_later L b (snd ?r)) (''summary:'' @ doc_id a))
                 \<or> generates svc a"
        by (simp add: kv_get_consume_later)
      from Cons.IH [OF mem this] Inr show ?thesis
        by (simp add: loop_Cons del: summarize_loop.simps)
    qed
  qed
qed

lemma loop_exclude:
  "\<not> truthy (kv_get w (''summary:'' @ i)) \<Longrightarrow>
   \<forall>b\<in>set arts. doc_id b = i \<longrightarrow> \<not> generates svc b \<Longrightarrow>
   i \<notin> fi_id ` set (fst (summarize_loop svc L arts w))"
proof (induction arts arbitrary: w)
  case Nil
  then show ?case by simp
next
  case (Cons b rest)
  let ?r = "getCachedOrSummarize svc b w"
  have still: "\<not> truthy (kv_get (snd ?r) (''summary:'' @ i))"
  proof (cases "doc_id b = i")
    case True
    with Cons.prems show ?thesis by (simp add: gcs_fail_key)
  next
    case False
    with Cons.prems show ?thesis by (simp add: gcs_other_key)
  qed
  have rest: "\<forall>b\<in>set rest. doc_id b = i \<longrightarrow> \<not> generates svc b"
    using Cons.prems(2) by simp
  show ?case
  proof (cases "fst ?r")
    case (Inl e)
    with Cons.IH [OF still rest] show ?thesis
      by (simp add: loop_Cons del: summarize_loop.simps)
  next
    case (Inr s)
    have "doc_id b \<noteq> i"
    proof
      assume "doc_id b = i"
      with Cons.prems have "\<not> truthy (kv_get w (''summary:'' @ doc_id b))"
        and "\<not> generates svc b" by simp_all
      with Inr gcs_Inr_iff [of svc b w] show False by auto
    qed
    moreover from still
    have "\<not> truthy (kv_get (consume_later L b (snd ?r)) (''summary:'' @ i))"
      by (simp add: kv_get_consume_later)
    note Cons.IH [OF this rest]
    ultimately show ?thesis using Inr
      by (auto simp add: loop_Cons simp del: summarize_loop.simps)
  qed
qed

lemma loop_shape:
  "\<exists>ps. fst (summarize_loop svc L arts w) = map (\<lambda>(a, s). feedItem svc a s) ps
        \<and> subseq (map fst ps) arts
        \<and> (\<forall>a\<in>set arts. truthy (kv_get w (''summary:'' @ doc_id a)) \<or> generates svc a
              \<longrightarrow> a \<in> set (map fst ps))"
proof (induction arts arbitrary: w)
  case Nil
  then show ?case by simp
next
  case (Cons b rest)
  let ?r = "getCachedOrSummarize svc b w"
  have later: "truthy (kv_get (snd ?r) (''summary:'' @ doc_id a)) \<or> generates svc a"
    if "truthy (kv_get w (''summary:'' @ doc_id a)) \<or> generates svc a" for a
    using that gcs_truthy_mono by blast
  show ?case
  proof (cases "fst ?r")
    case (Inl e)
    from Cons.IH [of "snd ?r"] obtain ps
      where items: "fst (summarize_loop svc L rest (snd ?r)) = map (\<lambda>(a, s). feedItem svc a s) ps"
        and sub: "subseq (map fst ps) rest"
        and all: "\<And>a. a \<in> set rest \<Longrightarrow>
                    truthy (kv_get (snd ?r) (''summary:'' @ doc_id a)) \<or> generates svc a \<Longrightarrow>
                    a \<in> set (map fst ps)"
      by blast
    have "a \<in> set (map fst ps)"
      if mem: "a \<in> set (b # rest)"
        and can: "truthy (kv_get w (''summary:'' @ doc_id a)) \<or> generates svc a" for a
    proof -
      have "a \<noteq> b"
      proof
        assume "a = b"
        with can gcs_Inr_iff [of svc b w] Inl show False by auto
      qed
      with mem have "a \<in> set rest" by simp
      then show ?thesis using later [OF can] by (rule all)
    qed
    moreover from sub have "subseq (map fst ps) (b # rest)" by (rule list_emb_Cons)
    ultimately show ?thesis using items Inl
      by (intro exI [of _ ps]) (simp add: loop_Cons del: summarize_loop.simps)
  next
    case (Inr s)
    from Cons.IH [of "consume_later L b (snd ?r)"] obtain ps
      where items: "fst (summarize_loop svc L rest (consume_later L b (snd ?r)))
               = map (\<lambda>(a, s). feedItem svc a s) ps"
        and sub: "subseq (map fst ps) rest"
        and all: "\<And>a. a \<in> set rest \<Longrightarrow>
                    truthy (kv_get (consume_later L b (snd ?r)) (''summary:'' @ doc_id a))
                      \<or> generates svc a \<Longrightarrow>
                    a \<in> set (map fst ps)"
      by blast
    have "a \<in> set (map fst ((b, s) # ps))"
      if mem: "a \<in> set (b # rest)"
        and can: "truthy (kv_get w (''summary:'' @ doc_id a)) \<or> generates svc a" for a
    proof (cases "a = b")
      case True
      then show ?thesis by simp
    next
      case False
      with mem have "a \<in> set rest" by simp
      moreover from later [OF can]
      have "truthy (kv_get (consume_later L b (snd ?r)) (''summary:'' @ doc_id a))
              \<or> generates svc a"
        by (simp add: kv_get_consume_later)
      ultimately have "a \<in> set (map fst ps)" by (rule all)
      then show ?thesis by simp
    qed
    with items sub Inr show ?thesis
      by (intro exI [of _ "(b, s) # ps"]) (simp add: loop_Cons del: summarize_loop.simps)
  qed
qed

lemma loop_kv_frame:
  "\<not> prefix ''summary:'' k \<Longrightarrow>
   map_of (kv (snd (summarize_loop svc L arts w))) k =
     (if \<exists>i \<in> L \<inter> fi_id ` set (fst (summarize_loop svc L arts w)). k = ''later:'' @ i
      then None else map_of (kv w) k)"
proof (induction arts arbitrary: w)
  case Nil
  then show ?case by simp
next
  case (Cons b rest)
  let ?r = "getCachedOrSummarize svc b w"
  show ?case
  proof (cases "fst ?r")
    case (Inl e)
    with Cons.IH [OF Cons.prems, of "snd ?r"] Cons.prems show ?thesis
      by (simp add: loop_Cons gcs_kv_other del: summarize_loop.simps)
  next
    case (Inr s)
    with Cons.IH [OF Cons.prems, of "consume_later L b (snd ?r)"] Cons.prems show ?thesis
      by (auto simp add: loop_Cons gcs_kv_other consume_later_kv simp del: summarize_loop.simps)
  qed
qed

lemma loop_ids_subseq:
  "subseq (map fi_id (fst (summarize_loop svc L arts w))) (map doc_id arts)"
proof -
  obtain ps where items: "fst (summarize_loop svc L arts w) = map (\<lambda>(a, s). feedItem svc a s) ps"
    and sub: "subseq (map fst ps) arts"
    using loop_shape by blast
  have "map fi_id (map (\<lambda>(a, s). feedItem svc a s) ps) = map doc_id (map fst ps)"
    by (induction ps) auto
  with items sub show ?thesis
    by (simp add: subseq_map del: map_map)
qed

lemma loop_all_fail:
  assumes "\<forall>a\<in>set arts. \<not> truthy (kv_get w (''summary:'' @ doc_id a))
                          \<and> \<not> generates svc a"
  shows "fst (summarize_loop svc L arts w) = []"
proof -
  have "i \<notin> fi_id ` set (fst (summarize_loop svc L arts w))" for i
  proof (cases "i \<in> doc_id ` set arts")
    case True
    with assms show ?thesis by (intro loop_exclude) auto
  next
    case False
    have "set (map fi_id (fst (summarize_loop svc L arts w))) \<subseteq> set (map doc_id arts)"
      using loop_ids_subseq by (rule subseq_set)
    with False show ?thesis by auto
  qed
  then show ?thesis by (cases "fst (summarize_loop svc L arts w)") auto
qed

subsection \<open>The feed handler\<close>

lemma handleFeed_Inr:
  "fetchAllReadwiseArticles svc (js_or_str (location_param req) ''all'') = Inr articles \<Longrightarrow>
   handleFeed svc req w =
     (Inr \<lparr>status = 200,
           body = FeedJson
             (fst (summarize_loop svc (getLaterIds w)
                (take MAX_ARTICLES (newArticles (getHeardIds w) (getLaterIds w) articles)) w))
             (length (newArticles (getHeardIds w) (getLaterIds w) articles))
             (js_or_str (location_param req) ''all'')\<rparr>,
      snd (summarize_loop svc (getLaterIds w)
             (take MAX_ARTICLES (newArticles (getHeardIds w) (getLaterIds w) articles)) w))"
  by (simp add: handleFeed_def Let_def split: prod.splits)

lemma handleFeed_Inl:
  "fetchAllReadwiseArticles svc (js_or_str (location_param req) ''all'') = Inl e \<Longrightarrow>
   handleFeed svc req w = (Inl e, w)"
  by (simp add: handleFeed_def)

lemma handleFeed_kv_frame:
  "\<not> prefix ''summary:'' k \<Longrightarrow>
   map_of (kv (snd (handleFeed svc req w))) k =
     (if \<exists>i \<in> getLaterIds w \<inter> served_ids (fst (handleFeed svc req w)). k = ''later:'' @ i
      then None else map_of (kv w) k)"
proof (cases "fetchAllReadwiseArticles svc (js_or_str (location_param req) ''all'')")
  case (Inl e)
  then show ?thesis by (simp add: handleFeed_Inl served_ids_def)
next
  case (Inr articles)
  assume "\<not> prefix ''summary:'' k"
  from loop_kv_frame [OF this] show ?thesis
    by (simp add: handleFeed_Inr [OF Inr] served_ids_def)
qed

lemma fetch_feed:
  "pathname req = ''/api/feed'' \<Longrightarrow> req_method req \<noteq> ''OPTIONS'' \<Longrightarrow>
   fetchAllReadwiseArticles svc (js_or_str (location_param req) ''all'') = Inr articles \<Longrightarrow>
   fst (fetch svc req w) = 
     \<lparr>status = 200,
           body = FeedJson
             (fst (summarize_loop svc (getLaterIds w)
                (take MAX_ARTICLES (newArticles (getHeardIds w) (getLaterIds w) articles)) w))
             (length (newArticles (getHeardIds w) (getLaterIds w) articles))
             (js_or_str (location_param req) ''all'')\<rparr>"
  by (simp add: fetch_def route_feed handleFeed_Inr)

lemma handleFeed_serves:
  assumes "fetchAllReadwiseArticles svc (js_or_str (location_param req) ''all'') = Inr articles"
    and "a \<in> set (take MAX_ARTICLES (newArticles (getHeardIds w) (getLaterIds w) articles))"
    and "truthy (kv_get w (''summary:'' @ doc_id a))
           \<or> generates svc a"
  shows "doc_id a \<in> served_ids (fst (handleFeed svc req w))"
  using loop_include [OF assms(2) assms(3)]
  by (simp add: handleFeed_Inr [OF assms(1)] served_ids_def)

lemma handleFeed_consumes:
  assumes "i \<in> served_ids (fst (handleFeed svc req w))"
  shows "i \<notin> getLaterIds (snd (handleFeed svc req w))"
proof (cases "i \<in> getLaterIds w")
  case True
  with assms have "\<exists>j \<in> getLaterIds w \<inter> served_ids (fst (handleFeed svc req w)).
                     ''later:'' @ i = ''later:'' @ j"
    by blast
  then have "map_of (kv (snd (handleFeed svc req w))) (''later:'' @ i) = None"
    by (subst handleFeed_kv_frame) simp_all
  then show ?thesis unfolding mem_getLaterIds by simp
next
  case False
  then have "map_of (kv w) (''later:'' @ i) = None"
    unfolding mem_getLaterIds by blast
  moreover from False
  have "\<not> (\<exists>j \<in> getLaterIds w \<inter> served_ids (fst (handleFeed svc req w)).
               ''later:'' @ i = ''later:'' @ j)"
    by simp
  ultimately have "map_of (kv (snd (handleFeed svc req w))) (''later:'' @ i) = None"
    by (subst handleFeed_kv_frame) simp_all
  then show ?thesis unfolding mem_getLaterIds by simp
qed

subsection \<open>Statuses of the handlers\<close>

lemma handleFeed_status: "fst (handleFeed svc req w) = Inr r \<Longrightarrow> status r = 200"
  by (auto simp add: handleFeed_def Let_def split: sum.splits prod.splits)

lemma handleTTS_status: "fst (handleTTS svc req w) = Inr r \<Longrightarrow> status r = 200"
  by (auto simp add: handleTTS_def Let_def split: parsed.splits property.splits prod.splits if_splits)

lemma handleArchive_status: "fst (handleArchive svc req w) = Inr r \<Longrightarrow> status r = 200"
  by (auto simp add: handleArchive_def Let_def split: parsed.splits prod.splits sum.splits)

lemma handleDelete_status: "fst (handleDelete svc req w) = Inr r \<Longrightarrow> status r = 200"
  by (auto simp add: handleDelete_def Let_def split: parsed.splits prod.splits sum.splits)

lemma handleLater_status: "fst (handleLater svc req w) = Inr r \<Longrightarrow> status r = 200"
  by (auto simp add: handleLater_def Let_def split: parsed.splits)

lemma caught_status:
  assumes "\<And>r. fst h = Inr r \<Longrightarrow> status r = 200"
  shows "status (fst (case h of (Inl (Error message), w') \<Rightarrow> (\<lparr>status = 500, body = ErrorJson message\<rparr>, w')
                         | (Inr response, w') \<Rightarrow> (response, w'))) \<noteq> 404"
  using assms by (cases h) (auto split: sum.splits error.splits)

subsection \<open>Pagination and order\<close>

lemma fetch_pages_filtered:
  "fetch_pages svc loc pc acc c n = Inr arts \<Longrightarrow>
   arts = acc @ filter (doc_filter loc) (pages_read svc loc pc acc c n)"
proof (induction svc loc pc acc c n arbitrary: arts rule: fetch_pages.induct)
  case (1 svc loc pc acc c n)
  from "1.prems" show ?case
    apply (subst (asm) fetch_pages.simps)
    apply (subst pages_read.simps)
    apply (auto split: prod.splits option.splits parsed.splits if_splits simp: Let_def
             dest!: "1.IH" [rotated -1])
    done
qed

lemma fetchAll_sorted_filtered:
  assumes "fetchAllReadwiseArticles svc loc = Inr articles"
  shows "articles = array_sort by_saved_at
                      (filter (doc_filter loc) (pages_read svc loc 0 [] None 0))"
proof (cases "fetch_pages svc loc 0 [] None 0")
  case (Inl e)
  with assms show ?thesis by (simp add: fetchAllReadwiseArticles_def)
next
  case (Inr arts)
  from fetch_pages_filtered [OF this]
  have "arts = filter (doc_filter loc) (pages_read svc loc 0 [] None 0)" by simp
  with assms Inr show ?thesis by (simp add: fetchAllReadwiseArticles_def)
qed



lemma set_sort_insert: "set (sort_insert comparefn x ys) = insert x (set ys)"
  by (induction ys) auto

lemma set_array_sort: "set (array_sort comparefn xs) = set xs"
  by (induction xs) (simp_all add: array_sort_def set_sort_insert)



lemma retry_loop_numeral:
  "retry_loop (numeral k) api n response =
     (let r = api n
      in if lr_status r = 429 then retry_loop (pred_numeral k) api (Suc n) (Some r)
         else (Some r, Suc n))"
  by (simp add: numeral_eq_Suc)

lemma retry_loop_calls:
  "snd (retry_loop retries api n r) \<le> n + retries"
  by (induction retries api n r rule: retry_loop.induct) (auto simp: Let_def)

lemma retry_loop_last:
  "retry_loop retries api n r = (Some x, m) \<Longrightarrow> 0 < retries \<Longrightarrow>
   n < m \<and> x = api (m - 1) \<and> (\<forall>k. n \<le> k \<and> k < m - 1 \<longrightarrow> lr_status (api k) = 429)"
proof (induction retries api n r arbitrary: x m rule: retry_loop.induct)
  case (1 api n response)
  then show ?case by simp
next
  case (2 retries api n response)
  show ?case
  proof (cases "lr_status (api n) = 429")
    case False
    with "2.prems" show ?thesis by (auto simp: Let_def)
  next
    case True
    note busy = this
    show ?thesis
    proof (cases retries)
      case 0
      with "2.prems" busy show ?thesis by (auto simp: Let_def)
    next
      case (Suc r)
      with "2.prems" busy have "retry_loop retries api (Suc n) (Some (api n)) = (Some x, m)"
        by (simp add: Let_def)
      from "2.IH" [OF refl busy this] Suc
      have "Suc n < m \<and> x = api (m - 1) \<and> (\<forall>k. Suc n \<le> k \<and> k < m - 1 \<longrightarrow> lr_status (api k) = 429)"
        by simp
      then have later: "Suc n < m" "x = api (m - 1)"
        and rest: "\<And>k. Suc n \<le> k \<Longrightarrow> k < m - 1 \<Longrightarrow> lr_status (api k) = 429"
        by simp_all
      have "lr_status (api k) = 429" if "n \<le> k" "k < m - 1" for k
      proof (cases "k = n")
        case True
        with busy show ?thesis by simp
      next
        case False
        with that have "Suc n \<le> k" by simp
        with that show ?thesis by (intro rest)
      qed
      with later show ?thesis by simp
    qed
  qed
qed

subsection \<open>The example environments, evaluated\<close>

lemmas eval_pages = fetch_pages.simps pages_read.simps retry_loop_numeral cursor_param_def
  truthy_def ok_def MAX_ARTICLES_def maxPages_def doc_filter_def fetchAllReadwiseArticles_def
  array_sort_def by_saved_at_def

lemmas example_defs = art1_def art2_def art3_def blank_article_def three_docs_def
  rate_limited_def quiet_services_def

lemma three_docs_all: "fetchAllReadwiseArticles three_docs ''all'' = Inr [art2, art1]"
  by (simp add: eval_pages example_defs)

lemma three_docs_feed: "fetchAllReadwiseArticles three_docs ''feed'' = Inr [art1]"
  by (simp add: eval_pages example_defs)

lemma three_docs_pages: "pages_read three_docs loc 0 [] None 0 = [art1, art2, art3]"
  by (simp add: eval_pages three_docs_def quiet_services_def)

lemma rate_limited_all: "fetchAllReadwiseArticles rate_limited ''all'' = Inr [art1]"
  by (simp add: eval_pages example_defs)

lemma quiet_all: "fetchAllReadwiseArticles quiet_services ''all'' = Inr []"
  by (simp add: eval_pages quiet_services_def)

lemma empty_world_ids: "getHeardIds empty_world = {}" "getLaterIds empty_world = {}"
  by (simp_all add: getHeardIds_def getLaterIds_def kv_list_def empty_world_def)

lemma heard_and_later_ids:
  "getHeardIds heard_and_later = {''a1''}" "getLaterIds heard_and_later = {''a1''}"
  by (simp_all add: getHeardIds_def getLaterIds_def kv_list_def heard_and_later_def startsWith_def)

lemma kv_get_empty_world: "kv_get empty_world k = None"
  by (simp add: kv_get_def empty_world_def)

lemma three_docs_claude:
  "claude three_docs p = \<lparr>c_status = 200, c_body = [], c_text = Parsed ''A short summary.''\<rparr>"
  by (simp add: three_docs_def quiet_services_def)

lemma rate_limited_claude:
  "claude rate_limited p =
     \<lparr>c_status = 429, c_body = ''Rate limited'', c_text = Unparsable ''Unexpected token R in JSON''\<rparr>"
  by (simp add: rate_limited_def quiet_services_def)

lemma malformed_first_all:
  "fetchAllReadwiseArticles malformed_first ''all'' = Inr [doc_first, doc_second]"
  by (simp add: eval_pages malformed_first_def quiet_services_def doc_first_def doc_second_def
      blank_article_def)

lemma malformed_first_claude_first:
  "claude malformed_first (userPrompt malformed_first doc_first)
     = \<lparr>c_status = 200, c_body = [], c_text = Unparsable ''Unexpected end of JSON input''\<rparr>"
  by (simp add: malformed_first_def quiet_services_def userPrompt_def extractSource_def
      js_or_str_def js_or_def truthy_def doc_first_def blank_article_def)

lemma malformed_first_claude_second:
  "claude malformed_first (userPrompt malformed_first doc_second)
     = \<lparr>c_status = 200, c_body = [], c_text = Parsed ''A short summary.''\<rparr>"
  by (simp add: malformed_first_def quiet_services_def userPrompt_def extractSource_def
      js_or_str_def js_or_def truthy_def doc_second_def blank_article_def)



lemma unauthorized_all:
  "fetchAllReadwiseArticles unauthorized ''all'' = Inl (Error ''Readwise API error: 401'')"
  by (simp add: eval_pages unauthorized_def quiet_services_def string_of_nat.simps digit_char_def)

lemma always_429_all:
  "fetchAllReadwiseArticles always_429 ''all'' = Inl (Error ''Readwise API error: 429'')"
  by (simp add: eval_pages always_429_def quiet_services_def string_of_nat.simps digit_char_def)

lemma busy_twice_all: "fetchAllReadwiseArticles busy_twice ''all'' = Inr [art1]"
  by (simp add: eval_pages busy_twice_def quiet_services_def art1_def blank_article_def)

section \<open>The claims\<close>

text \<open>
  C1 (as amended). Let the list client succeed for the scope of a feed request; the
  candidates are the articles left by the marker filter, and the handler reports their
  number as available. An article is a candidate exactly when it is on one of the pages
  read, its category is
  \<open>article\<close>, its location is not \<open>archive\<close>, its location lies in the scope (\<open>new\<close> or
  \<open>feed\<close> for the scope \<open>feed\<close>, \<open>later\<close> or \<open>shortlist\<close> for the scope \<open>library\<close>, any
  location for every other scope), and its id has no heard marker or has a later marker.
\<close>

theorem candidate_iff_filters:
  assumes "loc = js_or_str (location_param req) ''all''"
    and "fetchAllReadwiseArticles svc loc = Inr articles"
    and "candidates = newArticles (getHeardIds w) (getLaterIds w) articles"
  shows "(\<exists>items. fst (handleFeed svc req w) =
            Inr \<lparr>status = 200, body = FeedJson items (length candidates) loc\<rparr>)
     \<and> (a \<in> set candidates \<longleftrightarrow>
           a \<in> set (pages_read svc loc 0 [] None 0)
         \<and> category a = Some ''article''
         \<and> location a \<noteq> Some ''archive''
         \<and> (loc = ''feed'' \<longrightarrow> location a = Some ''new'' \<or> location a = Some ''feed'')
         \<and> (loc = ''library'' \<longrightarrow> location a = Some ''later'' \<or> location a = Some ''shortlist'')
         \<and> (doc_id a \<notin> getHeardIds w \<or> doc_id a \<in> getLaterIds w))"
proof -
  have "set articles = {d \<in> set (pages_read svc loc 0 [] None 0). doc_filter loc d}"
    using fetchAll_sorted_filtered [OF assms(2)] by (simp add: set_array_sort)
  then have "a \<in> set candidates \<longleftrightarrow>
           a \<in> set (pages_read svc loc 0 [] None 0)
         \<and> category a = Some ''article''
         \<and> location a \<noteq> Some ''archive''
         \<and> (loc = ''feed'' \<longrightarrow> location a = Some ''new'' \<or> location a = Some ''feed'')
         \<and> (loc = ''library'' \<longrightarrow> location a = Some ''later'' \<or> location a = Some ''shortlist'')
         \<and> (doc_id a \<notin> getHeardIds w \<or> doc_id a \<in> getLaterIds w)"
    unfolding assms(3) by (auto simp add: newArticles_def doc_filter_def)
  moreover have "\<exists>items. fst (handleFeed svc req w) =
            Inr \<lparr>status = 200, body = FeedJson items (length candidates) loc\<rparr>"
    using assms by (simp add: handleFeed_Inr)
  ultimately show ?thesis by blast
qed

text \<open>
  At the scope \<open>all\<close> the second of three documents is a candidate, the archived third
  one is not.
\<close>

theorem candidate_iff_filters_witness:
  "art2 \<in> set (newArticles (getHeardIds empty_world) (getLaterIds empty_world) [art2, art1])
   \<and> art2 \<in> set (pages_read three_docs ''all'' 0 [] None 0)
   \<and> category art2 = Some ''article''
   \<and> location art2 \<noteq> Some ''archive''
   \<and> art3 \<notin> set (newArticles (getHeardIds empty_world) (getLaterIds empty_world) [art2, art1])
   \<and> art3 \<in> set (pages_read three_docs ''all'' 0 [] None 0)
   \<and> location art3 = Some ''archive''"
proof -
  have scope: "''all'' = js_or_str (location_param feed_request) ''all''"
    by (simp add: feed_request_def js_or_str_def)
  from candidate_iff_filters [OF scope three_docs_all refl, of empty_world art2]
    candidate_iff_filters [OF scope three_docs_all refl, of empty_world art3]
  show ?thesis
    by (simp add: three_docs_pages empty_world_ids art2_def art3_def blank_article_def)
qed

text \<open>
  Without the scope the equivalence fails: for the scope \<open>feed\<close> the document saved for
  later is read from upstream, is an article, is not archived and has no heard marker,
  and still is no candidate; the handler reports one available article, not two.
\<close>

theorem library_article_not_candidate_in_feed_scope:
  "art2 \<in> set (pages_read three_docs ''feed'' 0 [] None 0)
   \<and> category art2 = Some ''article''
   \<and> location art2 \<noteq> Some ''archive''
   \<and> doc_id art2 \<notin> getHeardIds empty_world
   \<and> fetchAllReadwiseArticles three_docs ''feed'' = Inr [art1]
   \<and> art2 \<notin> set (newArticles (getHeardIds empty_world) (getLaterIds empty_world) [art1])
   \<and> fst (handleFeed three_docs feed_scope_request empty_world)
        = Inr \<lparr>status = 200,
               body = FeedJson [feedItem three_docs art1 ''A short summary.''] 1 ''feed''\<rparr>"
  by (simp add: three_docs_pages three_docs_feed empty_world_ids newArticles_def
      art1_def art2_def blank_article_def handleFeed_Inr feed_scope_request_def js_or_str_def
      MAX_ARTICLES_def getCachedOrSummarize_def summarizeArticle_def Let_def
      kv_get_empty_world truthy_def three_docs_claude ok_def)

text \<open>
  C2 (as amended). When the store holds no non-empty summary for an article id and the
  summarizer answers with success and a non-empty text, the first call stores that text
  under \<open>summary:<id>\<close> with the TTL of 30 days and returns it, a second call for the same
  id returns the stored text and leaves store and trace as they are, and the two calls
  together send exactly one request to the summarizer.
\<close>

theorem summary_generated_once_when_nonempty:
  assumes miss: "\<not> truthy (kv_get w (''summary:'' @ doc_id a))"
    and gen: "ok (c_status (claude svc (userPrompt svc a)))"
    and read: "c_text (claude svc (userPrompt svc a)) = Parsed s"
    and nonempty: "s \<noteq> []"
    and same: "doc_id a' = doc_id a"
  shows "fst (getCachedOrSummarize svc a w) = Inr s
     \<and> map_of (kv (snd (getCachedOrSummarize svc a w))) (''summary:'' @ doc_id a)
         = Some (s, Some (30 * 24 * 60 * 60))
     \<and> log (snd (getCachedOrSummarize svc a w))
         = log w @ [ClaudeCall (userPrompt svc a),
                    KvPut (''summary:'' @ doc_id a) s (30 * 24 * 60 * 60)]
     \<and> getCachedOrSummarize svc a' (snd (getCachedOrSummarize svc a w))
         = (Inr s, snd (getCachedOrSummarize svc a w))
     \<and> claude_calls (log (snd (getCachedOrSummarize svc a'
                                 (snd (getCachedOrSummarize svc a w)))))
         = claude_calls (log w) + 1"
proof -
  let ?key = "''summary:'' @ doc_id a"
  let ?w1 = "kv_put ?key s SUMMARY_CACHE_TTL (w\<lparr>log := log w @ [ClaudeCall (userPrompt svc a)]\<rparr>)"
  have first: "getCachedOrSummarize svc a w = (Inr s, ?w1)"
    using miss gen read by (simp add: getCachedOrSummarize_def summarizeArticle_def Let_def)
  have stored: "map_of (kv ?w1) ?key = Some (s, Some SUMMARY_CACHE_TTL)"
    by (simp add: kv_kv_put)
  have hit: "kv_get ?w1 (''summary:'' @ doc_id a') = Some s"
    unfolding same kv_get_def stored using nonempty by simp
  have second: "getCachedOrSummarize svc a' ?w1 = (Inr s, ?w1)"
    unfolding getCachedOrSummarize_def Let_def hit using nonempty by (simp add: truthy_def)
  have log1: "log ?w1 = log w @ [ClaudeCall (userPrompt svc a), KvPut ?key s SUMMARY_CACHE_TTL]"
    by (simp add: kv_put_def)
  have calls: "claude_calls (log ?w1) = claude_calls (log w) + 1"
    unfolding log1 by (simp add: claude_calls_def)
  have ttl: "SUMMARY_CACHE_TTL = 30 * 24 * 60 * 60"
    by (simp add: SUMMARY_CACHE_TTL_def)
  show ?thesis
    unfolding first second fst_conv snd_conv
    using stored log1 calls by (simp only: ttl simp_thms)
qed

text \<open>
  With the services that summarize every article as \<open>A short summary.\<close> and an empty
  store, the two calls send one request.
\<close>

theorem summary_generated_once_when_nonempty_witness:
  "fst (getCachedOrSummarize quiet_services art1 empty_world) = Inr ''A short summary.''
   \<and> map_of (kv (snd (getCachedOrSummarize quiet_services art1 empty_world))) ''summary:a1''
       = Some (''A short summary.'', Some 2592000)
   \<and> fst (getCachedOrSummarize quiet_services art1
            (snd (getCachedOrSummarize quiet_services art1 empty_world)))
       = Inr ''A short summary.''
   \<and> claude_calls (log (snd (getCachedOrSummarize quiet_services art1
                              (snd (getCachedOrSummarize quiet_services art1 empty_world)))))
       = 1"
  using summary_generated_once_when_nonempty
    [of empty_world art1 quiet_services "''A short summary.''" art1]
  by (simp add: kv_get_def empty_world_def truthy_def quiet_services_def ok_def art1_def
      blank_article_def claude_calls_def)

text \<open>
  A summarizer that succeeds with an empty text: the empty text is stored, the second
  call reads it as a miss, and the two calls send two requests.
\<close>

theorem empty_summary_is_generated_twice:
  "fst (getCachedOrSummarize empty_summary art1 empty_world) = Inr []
   \<and> map_of (kv (snd (getCachedOrSummarize empty_summary art1 empty_world))) ''summary:a1''
       = Some ([], Some 2592000)
   \<and> claude_calls (log (snd (getCachedOrSummarize empty_summary art1
                              (snd (getCachedOrSummarize empty_summary art1 empty_world)))))
       = 2"
  by (simp add: getCachedOrSummarize_def summarizeArticle_def Let_def kv_get_def kv_put_def
      truthy_def empty_world_def empty_summary_def quiet_services_def ok_def art1_def
      blank_article_def claude_calls_def SUMMARY_CACHE_TTL_def)

text \<open>
  C3. In one pass of the feed handler, the \<open>later\<close> marker of an id is absent afterwards
  exactly when the id is among the articles of the answer or had no such marker before;
  every other \<open>later\<close> marker and every \<open>heard\<close> marker is left as it was, so the pass
  creates no marker. When the handler fails, no article is served and no marker changes.
\<close>

theorem feed_consumes_later_markers_of_served_articles:
  "map_of (kv (snd (handleFeed svc req w))) (''later:'' @ i) =
     (if i \<in> served_ids (fst (handleFeed svc req w)) then None
      else map_of (kv w) (''later:'' @ i))
   \<and> map_of (kv (snd (handleFeed svc req w))) (''heard:'' @ i) = map_of (kv w) (''heard:'' @ i)
   \<and> getLaterIds (snd (handleFeed svc req w))
       = getLaterIds w - served_ids (fst (handleFeed svc req w))
   \<and> getHeardIds (snd (handleFeed svc req w)) = getHeardIds w"
proof -
  have later: "map_of (kv (snd (handleFeed svc req w))) (''later:'' @ j) =
     (if j \<in> served_ids (fst (handleFeed svc req w)) then None
      else map_of (kv w) (''later:'' @ j))" for j
  proof (cases "j \<in> getLaterIds w")
    case True
    then show ?thesis by (simp add: handleFeed_kv_frame)
  next
    case False
    then have "map_of (kv w) (''later:'' @ j) = None"
      unfolding mem_getLaterIds by blast
    with False show ?thesis by (simp add: handleFeed_kv_frame)
  qed
  have heard: "map_of (kv (snd (handleFeed svc req w))) (''heard:'' @ j)
                 = map_of (kv w) (''heard:'' @ j)" for j
    by (simp add: handleFeed_kv_frame)
  have "j \<in> getLaterIds (snd (handleFeed svc req w))
          \<longleftrightarrow> j \<in> getLaterIds w - served_ids (fst (handleFeed svc req w))" for j
    unfolding Diff_iff mem_getLaterIds later by auto
  then have "getLaterIds (snd (handleFeed svc req w))
          = getLaterIds w - served_ids (fst (handleFeed svc req w))"
    by blast
  moreover have "j \<in> getHeardIds (snd (handleFeed svc req w)) \<longleftrightarrow> j \<in> getHeardIds w" for j
    unfolding mem_getHeardIds heard ..
  then have "getHeardIds (snd (handleFeed svc req w)) = getHeardIds w"
    by blast
  ultimately show ?thesis using later [of i] heard [of i] by simp
qed

text \<open>
  The id \<open>a1\<close> holds both markers. When its article is served, its \<open>later\<close> marker is gone
  and its \<open>heard\<close> marker stays; when the summarizer fails, nothing is served and the
  \<open>later\<close> marker stays.
\<close>

theorem feed_consumes_later_markers_of_served_articles_witness:
  "''a1'' \<in> getLaterIds heard_and_later
   \<and> ''a1'' \<in> served_ids (fst (handleFeed three_docs feed_request heard_and_later))
   \<and> getLaterIds (snd (handleFeed three_docs feed_request heard_and_later)) = {}
   \<and> getHeardIds (snd (handleFeed three_docs feed_request heard_and_later)) = {''a1''}
   \<and> served_ids (fst (handleFeed rate_limited feed_request heard_and_later)) = {}
   \<and> getLaterIds (snd (handleFeed rate_limited feed_request heard_and_later)) = {''a1''}"
proof -
  have fetched: "fetchAllReadwiseArticles three_docs
                   (js_or_str (location_param feed_request) ''all'') = Inr [art2, art1]"
    by (simp add: three_docs_all feed_request_def js_or_str_def)
  have "art1 \<in> set (take MAX_ARTICLES
          (newArticles (getHeardIds heard_and_later) (getLaterIds heard_and_later) [art2, art1]))"
    by (simp add: newArticles_def heard_and_later_ids MAX_ARTICLES_def art1_def art2_def
        blank_article_def)
  moreover have "generates three_docs art1"
    by (simp add: generates_def three_docs_claude ok_def)
  ultimately have "doc_id art1 \<in> served_ids (fst (handleFeed three_docs feed_request heard_and_later))"
    using fetched by (intro handleFeed_serves) auto
  then have served: "''a1'' \<in> served_ids (fst (handleFeed three_docs feed_request heard_and_later))"
    by (simp add: art1_def blank_article_def)
  have fetched': "fetchAllReadwiseArticles rate_limited
                   (js_or_str (location_param feed_request) ''all'') = Inr [art1]"
    by (simp add: rate_limited_all feed_request_def js_or_str_def)
  have "fst (summarize_loop rate_limited L arts heard_and_later) = []" for L arts
    by (rule loop_all_fail)
       (simp add: kv_get_def heard_and_later_def truthy_def generates_def rate_limited_claude
          ok_def)
  then have none: "served_ids (fst (handleFeed rate_limited feed_request heard_and_later)) = {}"
    by (simp add: handleFeed_Inr [OF fetched'] served_ids_def)
  from served none
    feed_consumes_later_markers_of_served_articles
      [of three_docs feed_request heard_and_later "''a1''"]
    feed_consumes_later_markers_of_served_articles
      [of rate_limited feed_request heard_and_later "''a1''"]
  show ?thesis
    by (simp add: heard_and_later_ids)
qed

text \<open>
  C4. The archive action writes \<open>heard:<id>\<close> with a TTL of 30 days and only then asks
  upstream to move the document to the archive. When the upstream call fails (upstream
  does not answer with success, or its answer cannot be read as JSON), the caller gets
  the error as status 500 with the message; the action succeeds otherwise. In every case
  the marker written before is still in the store afterwards.
\<close>

theorem archive_failure_keeps_heard_marker:
  assumes "json req = Parsed p" and "pathname req = ''/api/archive''" and "req_method req = ''POST''"
  shows "log (snd (fetch svc req w)) =
           log w @ [KvPut (''heard:'' @ p_id p) (string_of_nat (now svc)) (30 * 24 * 60 * 60),
                    ReadwiseUpdate (p_id p) ''archive'']
     \<and> map_of (kv (snd (fetch svc req w))) (''heard:'' @ p_id p)
           = Some (string_of_nat (now svc), Some (30 * 24 * 60 * 60))
     \<and> p_id p \<in> getHeardIds (snd (fetch svc req w))
     \<and> fst (fetch svc req w) =
         (if \<not> ok (u_status (readwise_update svc (p_id p) ''archive''))
          then \<lparr>status = 500, body = ErrorJson (''Readwise update error: ''
                  @ string_of_nat (u_status (readwise_update svc (p_id p) ''archive'')))\<rparr>
          else case u_json (readwise_update svc (p_id p) ''archive'') of
                 Unparsable message \<Rightarrow> \<lparr>status = 500, body = ErrorJson message\<rparr>
               | Parsed document \<Rightarrow> \<lparr>status = 200, body = SuccessJson\<rparr>)"
  using assms
  by (simp add: fetch_def route_archive handleArchive_def updateReadwiseDocument_def
      Let_def kv_put_def update_conv' mem_getHeardIds split: parsed.splits)

text \<open>
  Upstream answers 503 to the update; upstream answers 204 with an empty body. Both
  requests are answered 500, and the marker is in the store.
\<close>

theorem archive_failure_keeps_heard_marker_witness:
  "fst (fetch failing_update archive_request empty_world)
     = \<lparr>status = 500, body = ErrorJson ''Readwise update error: 503''\<rparr>
   \<and> map_of (kv (snd (fetch failing_update archive_request empty_world))) ''heard:a1''
     = Some (''1700000000000'', Some 2592000)
   \<and> log (snd (fetch failing_update archive_request empty_world))
     = [KvPut ''heard:a1'' ''1700000000000'' 2592000, ReadwiseUpdate ''a1'' ''archive'']
   \<and> fst (fetch empty_update archive_request empty_world)
     = \<lparr>status = 500, body = ErrorJson ''Unexpected end of JSON input''\<rparr>
   \<and> map_of (kv (snd (fetch empty_update archive_request empty_world))) ''heard:a1''
     = Some (''1700000000000'', Some 2592000)
   \<and> ''a1'' \<in> getHeardIds (snd (fetch empty_update archive_request empty_world))"
  using archive_failure_keeps_heard_marker
      [of archive_request "\<lparr>p_id = ''a1'', p_text = Absent, p_voice = Absent\<rparr>" failing_update
          empty_world]
    archive_failure_keeps_heard_marker
      [of archive_request "\<lparr>p_id = ''a1'', p_text = Absent, p_voice = Absent\<rparr>" empty_update
          empty_world]
  by (simp add: archive_request_def failing_update_def empty_update_def quiet_services_def
      empty_world_def ok_def digit_char_def string_of_nat.simps)

text \<open>
  C5. Let the list client succeed, and let \<open>capped\<close> be the first \<open>MAX_ARTICLES\<close>
  candidates. The feed request is answered with status 200. The ids of its articles are
  a subsequence of the ids of \<open>capped\<close>; every article of \<open>capped\<close> whose summary is in the
  store or whose summarizer request yields a summary is in the answer; an article whose
  id has no stored summary and whose summarizer requests all fail (with a status that is
  no success, or with a body the text cannot be read off) is not; and when no summary
  can be obtained at all the list of articles is empty.
\<close>

theorem summarizer_failure_drops_only_that_article:
  assumes "pathname req = ''/api/feed''" and "req_method req \<noteq> ''OPTIONS''"
    and "fetchAllReadwiseArticles svc (js_or_str (location_param req) ''all'') = Inr articles"
    and "capped = take MAX_ARTICLES (newArticles (getHeardIds w) (getLaterIds w) articles)"
  shows "\<exists>items.
       fst (fetch svc req w) =
         \<lparr>status = 200,
          body = FeedJson items (length (newArticles (getHeardIds w) (getLaterIds w) articles))
                   (js_or_str (location_param req) ''all'')\<rparr>
     \<and> subseq (map fi_id items) (map doc_id capped)
     \<and> (\<forall>a\<in>set capped.
           truthy (kv_get w (''summary:'' @ doc_id a)) \<or> generates svc a
           \<longrightarrow> doc_id a \<in> fi_id ` set items)
     \<and> (\<forall>a\<in>set capped.
           \<not> truthy (kv_get w (''summary:'' @ doc_id a))
             \<and> (\<forall>b\<in>set capped. doc_id b = doc_id a \<longrightarrow> \<not> generates svc b)
           \<longrightarrow> doc_id a \<notin> fi_id ` set items)
     \<and> ((\<forall>a\<in>set capped.
            \<not> truthy (kv_get w (''summary:'' @ doc_id a)) \<and> \<not> generates svc a)
          \<longrightarrow> items = [])"
proof -
  let ?items = "fst (summarize_loop svc (getLaterIds w) capped w)"
  have "fst (fetch svc req w) =
         \<lparr>status = 200,
          body = FeedJson ?items (length (newArticles (getHeardIds w) (getLaterIds w) articles))
                   (js_or_str (location_param req) ''all'')\<rparr>"
    using assms by (simp add: fetch_feed)
  moreover have "subseq (map fi_id ?items) (map doc_id capped)"
    by (rule loop_ids_subseq)
  moreover have "\<forall>a\<in>set capped.
           truthy (kv_get w (''summary:'' @ doc_id a)) \<or> generates svc a
           \<longrightarrow> doc_id a \<in> fi_id ` set ?items"
    using loop_include by blast
  moreover have "\<forall>a\<in>set capped.
           \<not> truthy (kv_get w (''summary:'' @ doc_id a))
             \<and> (\<forall>b\<in>set capped. doc_id b = doc_id a \<longrightarrow> \<not> generates svc b)
           \<longrightarrow> doc_id a \<notin> fi_id ` set ?items"
    using loop_exclude by blast
  moreover have "(\<forall>a\<in>set capped.
            \<not> truthy (kv_get w (''summary:'' @ doc_id a)) \<and> \<not> generates svc a)
          \<longrightarrow> ?items = []"
    using loop_all_fail by blast
  ultimately show ?thesis by blast
qed

text \<open>
  The summarizer answers 429 for the only candidate: status 200, no article, one
  article available. The summarizer answers 200 with an empty body for the first of two
  candidates: status 200, the second article alone, two articles available, and no
  summary stored for the first.
\<close>

theorem summarizer_failure_drops_only_that_article_witness:
  "fst (fetch rate_limited feed_request empty_world)
     = \<lparr>status = 200, body = FeedJson [] 1 ''all''\<rparr>
   \<and> fetchAllReadwiseArticles malformed_first ''all'' = Inr [doc_first, doc_second]
   \<and> \<not> generates malformed_first doc_first
   \<and> generates malformed_first doc_second
   \<and> fst (fetch malformed_first feed_request empty_world)
     = \<lparr>status = 200,
        body = FeedJson [feedItem malformed_first doc_second ''A short summary.''] 2 ''all''\<rparr>
   \<and> kv_get (snd (fetch malformed_first feed_request empty_world)) ''summary:d1'' = None
   \<and> kv_get (snd (fetch malformed_first feed_request empty_world)) ''summary:d2''
     = Some ''A short summary.''"
proof -
  have capped: "[art1] = take MAX_ARTICLES
      (newArticles (getHeardIds empty_world) (getLaterIds empty_world) [art1])"
    by (simp add: newArticles_def empty_world_ids MAX_ARTICLES_def)
  have fails: "\<forall>a\<in>set [art1]. \<not> truthy (kv_get empty_world (''summary:'' @ doc_id a))
              \<and> \<not> generates rate_limited a"
    by (simp add: kv_get_empty_world truthy_def generates_def rate_limited_claude ok_def)
  from summarizer_failure_drops_only_that_article
         [of feed_request rate_limited "[art1]" "[art1]" empty_world] capped fails
  have limited: "fst (fetch rate_limited feed_request empty_world)
     = \<lparr>status = 200, body = FeedJson [] 1 ''all''\<rparr>"
    by (simp add: feed_request_def js_or_str_def rate_limited_all newArticles_def empty_world_ids)
  have first: "\<not> generates malformed_first doc_first"
    by (simp add: generates_def malformed_first_claude_first ok_def)
  have second: "generates malformed_first doc_second"
    by (simp add: generates_def malformed_first_claude_second ok_def)
  have ids: "doc_id doc_first = ''d1''" "doc_id doc_second = ''d2''"
    by (simp_all add: doc_first_def doc_second_def blank_article_def)
  have loop: "summarize_loop malformed_first {} [doc_first, doc_second] empty_world
     = ([feedItem malformed_first doc_second ''A short summary.''],
        kv_put ''summary:d2'' ''A short summary.'' SUMMARY_CACHE_TTL
          (empty_world\<lparr>log := [ClaudeCall (userPrompt malformed_first doc_first),
                                ClaudeCall (userPrompt malformed_first doc_second)]\<rparr>))"
    by (simp add: getCachedOrSummarize_def summarizeArticle_def Let_def kv_get_def truthy_def
        malformed_first_claude_first malformed_first_claude_second ok_def empty_world_def ids)
  have answer: "fetch malformed_first feed_request empty_world
     = (\<lparr>status = 200,
         body = FeedJson [feedItem malformed_first doc_second ''A short summary.''] 2 ''all''\<rparr>,
        kv_put ''summary:d2'' ''A short summary.'' SUMMARY_CACHE_TTL
          (empty_world\<lparr>log := [ClaudeCall (userPrompt malformed_first doc_first),
                                ClaudeCall (userPrompt malformed_first doc_second)]\<rparr>))"
    by (simp add: fetch_def route_feed handleFeed_def malformed_first_all empty_world_ids
        newArticles_def MAX_ARTICLES_def loop feed_request_def js_or_str_def
        del: summarize_loop.simps)
  have stored: "kv_get (snd (fetch malformed_first feed_request empty_world)) ''summary:d1'' = None"
    "kv_get (snd (fetch malformed_first feed_request empty_world)) ''summary:d2''
       = Some ''A short summary.''"
    unfolding answer by (simp_all add: kv_get_def kv_put_def empty_world_def)
  from limited first second answer stored show ?thesis
    by (simp add: malformed_first_all)
qed

text \<open>
  C6 (as amended). The later action answers with success, writes \<open>later:<id>\<close> with a TTL of 7 days
  and then deletes \<open>heard:<id>\<close>, so afterwards the id is in the later set and not in the
  heard set. An article whose id holds both markers passes the marker filter like an
  article that was never heard; if it is among the first \<open>MAX_ARTICLES\<close> candidates and
  its summary is obtained, it is in the answer of the feed handler and its \<open>later\<close>
  marker is consumed.
\<close>

theorem later_wins_over_heard:
  "(json req = Parsed p \<and> pathname req = ''/api/later'' \<and> req_method req = ''POST'' \<longrightarrow>
      fst (fetch svc req w) = \<lparr>status = 200, body = SuccessJson\<rparr>
    \<and> log (snd (fetch svc req w)) =
         log w @ [KvPut (''later:'' @ p_id p) (string_of_nat (now svc)) (7 * 24 * 60 * 60),
                  KvDelete (''heard:'' @ p_id p)]
    \<and> map_of (kv (snd (fetch svc req w))) (''later:'' @ p_id p)
         = Some (string_of_nat (now svc), Some (7 * 24 * 60 * 60))
    \<and> map_of (kv (snd (fetch svc req w))) (''heard:'' @ p_id p) = None
    \<and> p_id p \<notin> getHeardIds (snd (fetch svc req w))
    \<and> p_id p \<in> getLaterIds (snd (fetch svc req w)))
   \<and> (doc_id a \<in> getHeardIds w0 \<and> doc_id a \<in> getLaterIds w0 \<longrightarrow>
        (a \<in> set (newArticles (getHeardIds w0) (getLaterIds w0) articles) \<longleftrightarrow> a \<in> set articles))
   \<and> (doc_id a \<in> getHeardIds w0 \<and> doc_id a \<in> getLaterIds w0
        \<and> fetchAllReadwiseArticles svc (js_or_str (location_param req0) ''all'') = Inr articles
        \<and> a \<in> set (take MAX_ARTICLES (newArticles (getHeardIds w0) (getLaterIds w0) articles))
        \<and> (truthy (kv_get w0 (''summary:'' @ doc_id a))
             \<or> generates svc a) \<longrightarrow>
        doc_id a \<in> served_ids (fst (handleFeed svc req0 w0))
        \<and> doc_id a \<notin> getLaterIds (snd (handleFeed svc req0 w0)))"
proof (intro conjI impI)
  assume "doc_id a \<in> getHeardIds w0 \<and> doc_id a \<in> getLaterIds w0"
  then show "a \<in> set (newArticles (getHeardIds w0) (getLaterIds w0) articles) \<longleftrightarrow> a \<in> set articles"
    by (simp add: newArticles_def)
next
  assume h: "doc_id a \<in> getHeardIds w0 \<and> doc_id a \<in> getLaterIds w0
        \<and> fetchAllReadwiseArticles svc (js_or_str (location_param req0) ''all'') = Inr articles
        \<and> a \<in> set (take MAX_ARTICLES (newArticles (getHeardIds w0) (getLaterIds w0) articles))
        \<and> (truthy (kv_get w0 (''summary:'' @ doc_id a))
             \<or> generates svc a)"
  then show served: "doc_id a \<in> served_ids (fst (handleFeed svc req0 w0))"
    by (intro handleFeed_serves) blast+
  then show "doc_id a \<notin> getLaterIds (snd (handleFeed svc req0 w0))"
    by (rule handleFeed_consumes)
qed (simp_all add: fetch_def route_later handleLater_def Let_def kv_put_def kv_delete_def
      update_conv' delete_conv' mem_getHeardIds mem_getLaterIds)

text \<open>
  The id \<open>a1\<close> holds both markers: its article is a candidate and is served.
\<close>

theorem later_wins_over_heard_witness:
  "fst (fetch quiet_services later_request heard_and_later) = \<lparr>status = 200, body = SuccessJson\<rparr>
   \<and> ''a1'' \<notin> getHeardIds (snd (fetch quiet_services later_request heard_and_later))
   \<and> ''a1'' \<in> getLaterIds (snd (fetch quiet_services later_request heard_and_later))
   \<and> doc_id art1 \<in> getHeardIds heard_and_later
   \<and> doc_id art1 \<in> getLaterIds heard_and_later
   \<and> art1 \<in> set (newArticles (getHeardIds heard_and_later) (getLaterIds heard_and_later) [art2, art1])
   \<and> doc_id art1 \<in> served_ids (fst (handleFeed three_docs feed_request heard_and_later))
   \<and> doc_id art1 \<notin> getLaterIds (snd (handleFeed three_docs feed_request heard_and_later))"
proof -
  have ids: "doc_id art1 \<in> getHeardIds heard_and_later \<and> doc_id art1 \<in> getLaterIds heard_and_later"
    by (simp add: heard_and_later_ids art1_def blank_article_def)
  have fetched: "fetchAllReadwiseArticles three_docs
                   (js_or_str (location_param feed_request) ''all'') = Inr [art2, art1]"
    by (simp add: three_docs_all feed_request_def js_or_str_def)
  have capped: "art1 \<in> set (take MAX_ARTICLES
                  (newArticles (getHeardIds heard_and_later) (getLaterIds heard_and_later) [art2, art1]))"
    by (simp add: newArticles_def heard_and_later_ids MAX_ARTICLES_def art1_def art2_def blank_article_def)
  have summarizes: "generates three_docs art1"
    by (simp add: generates_def three_docs_claude ok_def)
  have req: "json later_request = Parsed \<lparr>p_id = ''a1'', p_text = Absent, p_voice = Absent\<rparr>
     \<and> pathname later_request = ''/api/later'' \<and> req_method later_request = ''POST''"
    by (simp add: later_request_def)
  from later_wins_over_heard [of later_request "\<lparr>p_id = ''a1'', p_text = Absent, p_voice = Absent\<rparr>"
      quiet_services heard_and_later art1 heard_and_later]
    req ids
  have part1: "fst (fetch quiet_services later_request heard_and_later) = \<lparr>status = 200, body = SuccessJson\<rparr>
   \<and> ''a1'' \<notin> getHeardIds (snd (fetch quiet_services later_request heard_and_later))
   \<and> ''a1'' \<in> getLaterIds (snd (fetch quiet_services later_request heard_and_later))"
    by simp
  from later_wins_over_heard [of later_request "\<lparr>p_id = ''a1'', p_text = Absent, p_voice = Absent\<rparr>"
      three_docs heard_and_later art1 heard_and_later "[art2, art1]" feed_request]
    ids fetched capped summarizes
  have part2: "art1 \<in> set (newArticles (getHeardIds heard_and_later) (getLaterIds heard_and_later) [art2, art1])
   \<and> doc_id art1 \<in> served_ids (fst (handleFeed three_docs feed_request heard_and_later))
   \<and> doc_id art1 \<notin> getLaterIds (snd (handleFeed three_docs feed_request heard_and_later))"
    by simp
  from part1 part2 ids show ?thesis by simp
qed

text \<open>
  Holding both markers does not put an article into the answer: the id \<open>a1\<close> holds both
  markers and its article is the only candidate, but the summarizer answers 429, so the
  answer has no article, and the \<open>later\<close> marker stays.
\<close>

theorem both_markers_unserved_when_summarizer_fails:
  "doc_id art1 \<in> getHeardIds heard_and_later
   \<and> doc_id art1 \<in> getLaterIds heard_and_later
   \<and> fetchAllReadwiseArticles rate_limited ''all'' = Inr [art1]
   \<and> newArticles (getHeardIds heard_and_later) (getLaterIds heard_and_later) [art1] = [art1]
   \<and> fst (handleFeed rate_limited feed_request heard_and_later)
       = Inr \<lparr>status = 200, body = FeedJson [] 1 ''all''\<rparr>
   \<and> getLaterIds (snd (handleFeed rate_limited feed_request heard_and_later)) = {''a1''}"
proof -
  have ids: "doc_id art1 \<in> getHeardIds heard_and_later" "doc_id art1 \<in> getLaterIds heard_and_later"
    by (simp_all add: heard_and_later_ids art1_def blank_article_def)
  then have new: "newArticles (getHeardIds heard_and_later) (getLaterIds heard_and_later) [art1]
                    = [art1]"
    by (simp add: newArticles_def)
  have loop: "summarize_loop rate_limited L [art1] heard_and_later
     = ([], heard_and_later\<lparr>log := [ClaudeCall (userPrompt rate_limited art1)]\<rparr>)" for L
    by (simp add: getCachedOrSummarize_def summarizeArticle_def Let_def kv_get_def truthy_def
        rate_limited_claude ok_def heard_and_later_def art1_def blank_article_def)
  have answer: "handleFeed rate_limited feed_request heard_and_later
     = (Inr \<lparr>status = 200, body = FeedJson [] 1 ''all''\<rparr>,
        heard_and_later\<lparr>log := [ClaudeCall (userPrompt rate_limited art1)]\<rparr>)"
    by (simp add: handleFeed_Inr rate_limited_all new MAX_ARTICLES_def loop feed_request_def
        js_or_str_def del: summarize_loop.simps)
  have "getLaterIds (heard_and_later\<lparr>log := [ClaudeCall (userPrompt rate_limited art1)]\<rparr>)
          = getLaterIds heard_and_later"
    by (simp add: getLaterIds_def kv_list_def)
  with ids new answer show ?thesis
    by (simp add: rate_limited_all heard_and_later_ids)
qed

text \<open>
  C7. The upstream delete call succeeds on a success status and on 404, and fails on
  every other status with an error whose message carries the status. So does the delete
  action (200 or 500), and a delete that follows a successful delete of the same id and
  finds the document gone (404) succeeds again.
\<close>

theorem delete_treats_not_found_as_success:
  assumes "json req = Parsed p" and "pathname req = ''/api/delete''" and "req_method req = ''POST''"
  shows "fst (deleteReadwiseDocument svc (p_id p) w) =
           (if ok (readwise_delete svc (p_id p)) \<or> readwise_delete svc (p_id p) = 404
            then Inr True
            else Inl (Error (''Readwise delete error: ''
                               @ string_of_nat (readwise_delete svc (p_id p)))))
     \<and> fst (fetch svc req w) =
           (if ok (readwise_delete svc (p_id p)) \<or> readwise_delete svc (p_id p) = 404
            then \<lparr>status = 200, body = SuccessJson\<rparr>
            else \<lparr>status = 500, body = ErrorJson (''Readwise delete error: ''
                    @ string_of_nat (readwise_delete svc (p_id p)))\<rparr>)
     \<and> (ok (readwise_delete svc (p_id p)) \<and> readwise_delete svc' (p_id p) = 404 \<longrightarrow>
          fst (fetch svc req w) = \<lparr>status = 200, body = SuccessJson\<rparr>
        \<and> fst (fetch svc' req (snd (fetch svc req w))) = \<lparr>status = 200, body = SuccessJson\<rparr>
        \<and> p_id p \<in> getHeardIds (snd (fetch svc' req (snd (fetch svc req w)))))"
  using assms
  by (simp add: fetch_def route_delete handleDelete_def deleteReadwiseDocument_def
      Let_def kv_put_def update_conv' mem_getHeardIds)

text \<open>
  A first delete answered 204, a second one answered 404, and a delete answered 500.
\<close>

theorem delete_treats_not_found_as_success_witness:
  "fst (fetch quiet_services delete_request empty_world) = \<lparr>status = 200, body = SuccessJson\<rparr>
   \<and> fst (fetch already_deleted delete_request (snd (fetch quiet_services delete_request empty_world)))
       = \<lparr>status = 200, body = SuccessJson\<rparr>
   \<and> fst (fetch failing_delete delete_request empty_world)
       = \<lparr>status = 500, body = ErrorJson ''Readwise delete error: 500''\<rparr>"
  using delete_treats_not_found_as_success
      [of delete_request "\<lparr>p_id = ''a1'', p_text = Absent, p_voice = Absent\<rparr>" quiet_services
          empty_world already_deleted]
    delete_treats_not_found_as_success
      [of delete_request "\<lparr>p_id = ''a1'', p_text = Absent, p_voice = Absent\<rparr>" failing_delete
          empty_world already_deleted]
  by (simp add: delete_request_def quiet_services_def already_deleted_def failing_delete_def
      ok_def string_of_nat.simps digit_char_def)

text \<open>
  C8. The source label of an article without site name whose source URL has the host
  name \<open>notwww.example.com\<close>: the first \<open>www.\<close> of the host name is removed although it is
  not leading, and the label is \<open>notexample.com\<close>.
\<close>

theorem extractSource_removes_inner_www:
  "extractSource example_hosts (blank_article\<lparr>source_url := Some ''https://notwww.example.com/a''\<rparr>)
     = ''notexample.com''"
  by (simp add: extractSource_def example_hosts_def quiet_services_def blank_article_def truthy_def)




text \<open>
  C10 (as amended). For a request that is not a preflight and whose path is neither \<open>/\<close>
  nor ends with \<open>/index.html\<close>: a path that contains \<open>/api/feed\<close> goes to the feed
  handler whatever the method; otherwise a POST goes to the first of the speech,
  archive, delete and later handlers whose route is contained in the path; and the
  answer has status 404 exactly when none of these routes matches and the path is not
  \<open>/manifest.json\<close>.
\<close>

theorem routes_match_by_substring_after_page_route:
  assumes "req_method req \<noteq> ''OPTIONS''"
    and "pathname req \<noteq> ''/''" and "\<not> endsWith (pathname req) ''/index.html''"
  shows "(str_includes (pathname req) ''/api/feed'' \<longrightarrow> route svc req w = handleFeed svc req w)
     \<and> (\<not> str_includes (pathname req) ''/api/feed'' \<and> req_method req = ''POST''
          \<and> str_includes (pathname req) ''/api/tts'' \<longrightarrow> route svc req w = handleTTS svc req w)
     \<and> (\<not> str_includes (pathname req) ''/api/feed'' \<and> req_method req = ''POST''
          \<and> \<not> str_includes (pathname req) ''/api/tts''
          \<and> str_includes (pathname req) ''/api/archive'' \<longrightarrow>
            route svc req w = handleArchive svc req w)
     \<and> (\<not> str_includes (pathname req) ''/api/feed'' \<and> req_method req = ''POST''
          \<and> \<not> str_includes (pathname req) ''/api/tts''
          \<and> \<not> str_includes (pathname req) ''/api/archive''
          \<and> str_includes (pathname req) ''/api/delete'' \<longrightarrow>
            route svc req w = handleDelete svc req w)
     \<and> (\<not> str_includes (pathname req) ''/api/feed'' \<and> req_method req = ''POST''
          \<and> \<not> str_includes (pathname req) ''/api/tts''
          \<and> \<not> str_includes (pathname req) ''/api/archive''
          \<and> \<not> str_includes (pathname req) ''/api/delete''
          \<and> str_includes (pathname req) ''/api/later'' \<longrightarrow>
            route svc req w = handleLater svc req w)
     \<and> (status (fst (fetch svc req w)) = 404 \<longleftrightarrow>
            \<not> str_includes (pathname req) ''/api/feed''
          \<and> \<not> (req_method req = ''POST''
                 \<and> (str_includes (pathname req) ''/api/tts''
                      \<or> str_includes (pathname req) ''/api/archive''
                      \<or> str_includes (pathname req) ''/api/delete''
                      \<or> str_includes (pathname req) ''/api/later''))
          \<and> pathname req \<noteq> ''/manifest.json'')"
proof -
  have dispatch: "(str_includes (pathname req) ''/api/feed'' \<longrightarrow> route svc req w = handleFeed svc req w)
     \<and> (\<not> str_includes (pathname req) ''/api/feed'' \<and> req_method req = ''POST''
          \<and> str_includes (pathname req) ''/api/tts'' \<longrightarrow> route svc req w = handleTTS svc req w)
     \<and> (\<not> str_includes (pathname req) ''/api/feed'' \<and> req_method req = ''POST''
          \<and> \<not> str_includes (pathname req) ''/api/tts''
          \<and> str_includes (pathname req) ''/api/archive'' \<longrightarrow>
            route svc req w = handleArchive svc req w)
     \<and> (\<not> str_includes (pathname req) ''/api/feed'' \<and> req_method req = ''POST''
          \<and> \<not> str_includes (pathname req) ''/api/tts''
          \<and> \<not> str_includes (pathname req) ''/api/archive''
          \<and> str_includes (pathname req) ''/api/delete'' \<longrightarrow>
            route svc req w = handleDelete svc req w)
     \<and> (\<not> str_includes (pathname req) ''/api/feed'' \<and> req_method req = ''POST''
          \<and> \<not> str_includes (pathname req) ''/api/tts''
          \<and> \<not> str_includes (pathname req) ''/api/archive''
          \<and> \<not> str_includes (pathname req) ''/api/delete''
          \<and> str_includes (pathname req) ''/api/later'' \<longrightarrow>
            route svc req w = handleLater svc req w)"
    using assms by (simp add: route_def)
  have not_found: "status (fst (fetch svc req w)) = 404 \<longleftrightarrow>
            \<not> str_includes (pathname req) ''/api/feed''
          \<and> \<not> (req_method req = ''POST''
                 \<and> (str_includes (pathname req) ''/api/tts''
                      \<or> str_includes (pathname req) ''/api/archive''
                      \<or> str_includes (pathname req) ''/api/delete''
                      \<or> str_includes (pathname req) ''/api/later''))
          \<and> pathname req \<noteq> ''/manifest.json''"
    using assms
    by (auto simp add: fetch_def route_def Let_def
        caught_status [OF handleFeed_status] caught_status [OF handleTTS_status]
        caught_status [OF handleArchive_status] caught_status [OF handleDelete_status]
        caught_status [OF handleLater_status])
  from dispatch not_found show ?thesis by blast
qed

text \<open>
  A DELETE request to \<open>/v2/api/feed/x\<close> goes to the feed handler, a POST to
  \<open>/x/api/archive/y\<close> to the archive handler, and a GET to \<open>/api/tts\<close> is answered 404.
\<close>

theorem routes_match_by_substring_after_page_route_witness:
  "route quiet_services (feed_request\<lparr>req_method := ''DELETE'', pathname := ''/v2/api/feed/x''\<rparr>) empty_world
     = handleFeed quiet_services (feed_request\<lparr>req_method := ''DELETE'', pathname := ''/v2/api/feed/x''\<rparr>) empty_world
   \<and> route failing_update (archive_request\<lparr>pathname := ''/x/api/archive/y''\<rparr>) empty_world
     = handleArchive failing_update (archive_request\<lparr>pathname := ''/x/api/archive/y''\<rparr>) empty_world
   \<and> status (fst (fetch quiet_services tts_request empty_world)) = 404"
  using routes_match_by_substring_after_page_route
      [of "feed_request\<lparr>req_method := ''DELETE'', pathname := ''/v2/api/feed/x''\<rparr>"
          quiet_services empty_world]
    routes_match_by_substring_after_page_route
      [of "archive_request\<lparr>pathname := ''/x/api/archive/y''\<rparr>" failing_update empty_world]
    routes_match_by_substring_after_page_route [of tts_request quiet_services empty_world]
  by (simp add: feed_request_def archive_request_def tts_request_def endsWith_def)

text \<open>
  The path \<open>/api/feed/index.html\<close> contains \<open>/api/feed\<close>, but the page route comes first:
  the request is answered with the page, where the feed handler would have answered
  with a feed.
\<close>

theorem page_route_shadows_feed_route:
  "req_method index_under_feed \<noteq> ''OPTIONS''
   \<and> str_includes (pathname index_under_feed) ''/api/feed''
   \<and> fetch quiet_services index_under_feed empty_world
       = (\<lparr>status = 200, body = HtmlPage\<rparr>, empty_world)
   \<and> handleFeed quiet_services index_under_feed empty_world
       = (Inr \<lparr>status = 200, body = FeedJson [] 0 ''all''\<rparr>, empty_world)"
  by (simp add: index_under_feed_def fetch_def route_def endsWith_def handleFeed_Inr quiet_all
      js_or_str_def newArticles_def)

section \<open>Further properties\<close>

text \<open>
  When the list client fails, the feed request fails as a whole: the answer is status
  500 with the error's message, and store and trace are as before.
\<close>

theorem list_failure_fails_the_feed_request:
  assumes "pathname req = ''/api/feed''" and "req_method req \<noteq> ''OPTIONS''"
    and "fetchAllReadwiseArticles svc (js_or_str (location_param req) ''all'') = Inl (Error message)"
  shows "fetch svc req w = (\<lparr>status = 500, body = ErrorJson message\<rparr>, w)"
  using assms by (simp add: fetch_def route_feed handleFeed_Inl)

text \<open>
  Upstream answers 401 to the list request.
\<close>

theorem list_failure_fails_the_feed_request_witness:
  "fetch unauthorized feed_request heard_and_later
     = (\<lparr>status = 500, body = ErrorJson ''Readwise API error: 401''\<rparr>, heard_and_later)"
  using list_failure_fails_the_feed_request
    [of feed_request unauthorized "''Readwise API error: 401''" heard_and_later]
  by (simp add: feed_request_def js_or_str_def unauthorized_all)

text \<open>
  One page is requested at most three times: the request is repeated only after an
  answer 429, the answer used is the last one received, and an answer 429 is used only
  after three requests (the fetch then fails with it).
\<close>

theorem list_request_retried_at_most_three_times:
  "\<exists>x m. retry_loop 3 api n None = (Some x, m)
     \<and> n < m \<and> m \<le> n + 3
     \<and> x = api (m - 1)
     \<and> (\<forall>k. n \<le> k \<and> k < m - 1 \<longrightarrow> lr_status (api k) = 429)
     \<and> (lr_status x = 429 \<longrightarrow> m = n + 3)"
proof -
  obtain r m where res: "retry_loop 3 api n None = (r, m)"
    by (cases "retry_loop 3 api n None")
  then obtain x where x: "r = Some x"
    by (auto simp add: retry_loop_numeral Let_def split: if_splits)
  from res x retry_loop_last [of 3 api n None x m]
  have "n < m" "x = api (m - 1)" "\<forall>k. n \<le> k \<and> k < m - 1 \<longrightarrow> lr_status (api k) = 429"
    by simp_all
  moreover from retry_loop_calls [of 3 api n None] res have "m \<le> n + 3" by simp
  moreover from res x have "lr_status x = 429 \<longrightarrow> m = n + 3"
    by (auto simp add: retry_loop_numeral Let_def split: if_splits)
  ultimately show ?thesis using res x by blast
qed

text \<open>
  Upstream busy for ever, and upstream busy twice.
\<close>

theorem list_request_retried_at_most_three_times_witness:
  "retry_loop 3 (\<lambda>k. readwise_list always_429 k None) 0 None
     = (Some \<lparr>lr_status = 429, lr_json = Unparsable ''Unexpected end of JSON input''\<rparr>, 3)
   \<and> retry_loop 3 (\<lambda>k. readwise_list busy_twice k None) 0 None
     = (Some \<lparr>lr_status = 200, lr_json = Parsed \<lparr>results = Some [art1], nextPageCursor = None\<rparr>\<rparr>, 3)
   \<and> fetchAllReadwiseArticles always_429 ''all'' = Inl (Error ''Readwise API error: 429'')
   \<and> fetchAllReadwiseArticles busy_twice ''all'' = Inr [art1]"
proof -
  have busy: "retry_loop 3 (\<lambda>k. readwise_list always_429 k None) 0 None
     = (Some \<lparr>lr_status = 429, lr_json = Unparsable ''Unexpected end of JSON input''\<rparr>, 3)"
    by (simp add: retry_loop_numeral always_429_def quiet_services_def)
  have twice: "retry_loop 3 (\<lambda>k. readwise_list busy_twice k None) 0 None
     = (Some \<lparr>lr_status = 200, lr_json = Parsed \<lparr>results = Some [art1], nextPageCursor = None\<rparr>\<rparr>, 3)"
    by (simp add: retry_loop_numeral busy_twice_def quiet_services_def)
  from list_request_retried_at_most_three_times [of "\<lambda>k. readwise_list always_429 k None" 0]
    busy twice always_429_all busy_twice_all
  show ?thesis by simp
qed

text \<open>
  A speech request with a readable body whose \<open>text\<close> is a string is always answered
  with status 200: with the audio when a key is configured and the speech service
  answers with success, with the instruction to use the browser's speech otherwise. The
  speech service is called only when a key is configured, with at most 4096 characters
  and with the voice of the request, \<open>alloy\<close> when the request names none; the store is
  not touched.
\<close>

theorem speech_failure_falls_back_to_browser:
  assumes "json req = Parsed p" and "p_text p = Value input"
    and "voice = (case p_voice p of Absent \<Rightarrow> Some ''alloy'' | Null \<Rightarrow> None | Value v \<Rightarrow> Some v)"
  shows "fst (handleTTS svc req w) =
           Inr \<lparr>status = 200,
                body = (if truthy (openai_key svc)
                           \<and> ok (fst (openai_tts svc (take 4096 input) voice))
                        then AudioStream (snd (openai_tts svc (take 4096 input) voice))
                        else BrowserTts (Value input))\<rparr>
     \<and> log (snd (handleTTS svc req w)) =
           (if truthy (openai_key svc)
            then log w @ [OpenAICall (take 4096 input) voice]
            else log w)
     \<and> kv (snd (handleTTS svc req w)) = kv w"
  using assms by (simp add: handleTTS_def Let_def split: prod.splits)

text \<open>
  No key; a key and a known voice; a key and a voice the service refuses; a key and the
  voice \<open>null\<close>, which is passed on as it is.
\<close>

theorem speech_failure_falls_back_to_browser_witness:
  "fst (handleTTS quiet_services tts_post empty_world)
     = Inr \<lparr>status = 200, body = BrowserTts (Value ''Hello world'')\<rparr>
   \<and> fst (handleTTS with_key tts_post empty_world)
     = Inr \<lparr>status = 200, body = AudioStream ''mp3''\<rparr>
   \<and> fst (handleTTS with_key (tts_post\<lparr>json := Parsed \<lparr>p_id = [], p_text = Value ''Hello world'',
                                                         p_voice = Value ''echo''\<rparr>\<rparr>) empty_world)
     = Inr \<lparr>status = 200, body = BrowserTts (Value ''Hello world'')\<rparr>
   \<and> log (snd (handleTTS with_key (tts_post\<lparr>json := Parsed \<lparr>p_id = [], p_text = Value ''Hello world'',
                                                         p_voice = Null\<rparr>\<rparr>) empty_world))
     = [OpenAICall ''Hello world'' None]"
  using speech_failure_falls_back_to_browser
      [of tts_post "\<lparr>p_id = [], p_text = Value ''Hello world'', p_voice = Absent\<rparr>"
          "''Hello world''" "Some ''alloy''" quiet_services empty_world]
    speech_failure_falls_back_to_browser
      [of tts_post "\<lparr>p_id = [], p_text = Value ''Hello world'', p_voice = Absent\<rparr>"
          "''Hello world''" "Some ''alloy''" with_key empty_world]
    speech_failure_falls_back_to_browser
      [of "tts_post\<lparr>json := Parsed \<lparr>p_id = [], p_text = Value ''Hello world'', p_voice = Value ''echo''\<rparr>\<rparr>"
          "\<lparr>p_id = [], p_text = Value ''Hello world'', p_voice = Value ''echo''\<rparr>"
          "''Hello world''" "Some ''echo''" with_key empty_world]
    speech_failure_falls_back_to_browser
      [of "tts_post\<lparr>json := Parsed \<lparr>p_id = [], p_text = Value ''Hello world'', p_voice = Null\<rparr>\<rparr>"
          "\<lparr>p_id = [], p_text = Value ''Hello world'', p_voice = Null\<rparr>"
          "''Hello world''" None with_key empty_world]
  by (simp add: tts_post_def quiet_services_def with_key_def truthy_def ok_def empty_world_def)

text \<open>
  The answer of the feed handler holds at most \<open>MAX_ARTICLES\<close> articles, never more
  than there are candidates, and reports the number of candidates before the cap.
\<close>

theorem feed_answer_is_capped:
  assumes "fetchAllReadwiseArticles svc (js_or_str (location_param req) ''all'') = Inr articles"
  shows "\<exists>items. fst (handleFeed svc req w) =
           Inr \<lparr>status = 200,
                body = FeedJson items (length (newArticles (getHeardIds w) (getLaterIds w) articles))
                         (js_or_str (location_param req) ''all'')\<rparr>
     \<and> length items \<le> MAX_ARTICLES
     \<and> length items \<le> length (newArticles (getHeardIds w) (getLaterIds w) articles)
     \<and> length (newArticles (getHeardIds w) (getLaterIds w) articles) \<le> length articles"
proof -
  let ?new = "newArticles (getHeardIds w) (getLaterIds w) articles"
  let ?items = "fst (summarize_loop svc (getLaterIds w) (take MAX_ARTICLES ?new) w)"
  have "subseq (map fi_id ?items) (map doc_id (take MAX_ARTICLES ?new))"
    by (rule loop_ids_subseq)
  then have "length (map fi_id ?items) \<le> length (map doc_id (take MAX_ARTICLES ?new))"
    by (rule list_emb_length)
  then have "length ?items \<le> min (length ?new) MAX_ARTICLES" by simp
  moreover have "length ?new \<le> length articles" by (simp add: newArticles_def)
  ultimately show ?thesis
    by (intro exI [of _ ?items]) (simp add: handleFeed_Inr [OF assms])
qed

text \<open>
  Two candidates, both within the cap.
\<close>

theorem feed_answer_is_capped_witness:
  "\<exists>items. fst (handleFeed three_docs feed_request empty_world) =
           Inr \<lparr>status = 200, body = FeedJson items 2 ''all''\<rparr>
     \<and> length items \<le> 50"
proof -
  have fetched: "fetchAllReadwiseArticles three_docs
                   (js_or_str (location_param feed_request) ''all'') = Inr [art2, art1]"
    by (simp add: three_docs_all feed_request_def js_or_str_def)
  have total: "length (newArticles (getHeardIds empty_world) (getLaterIds empty_world)
                 [art2, art1]) = 2"
    by (simp add: newArticles_def empty_world_ids)
  from feed_answer_is_capped [OF fetched, of empty_world]
  obtain items where
    "fst (handleFeed three_docs feed_request empty_world) =
       Inr \<lparr>status = 200,
            body = FeedJson items
                     (length (newArticles (getHeardIds empty_world) (getLaterIds empty_world)
                        [art2, art1]))
                     (js_or_str (location_param feed_request) ''all'')\<rparr>"
    and "length items \<le> MAX_ARTICLES"
    by blast
  then show ?thesis
    unfolding total by (intro exI [of _ items]) (simp add: feed_request_def js_or_str_def MAX_ARTICLES_def)
qed

text \<open>
  The source label in full: the site name when it is truthy; else \<open>Unknown source\<close>
  when there is no source URL or it does not parse; else the host name without its
  leading \<open>www.\<close>, or unchanged when it contains no \<open>www.\<close>; only a host name with an inner
  \<open>www.\<close> and no leading one loses that inner occurrence.
\<close>

theorem extractSource_label:
  "extractSource svc a =
     (if truthy (site_name a) then the (site_name a)
      else if \<not> truthy (source_url a) then ''Unknown source''
      else case url_hostname svc (the (source_url a)) of
             None \<Rightarrow> ''Unknown source''
           | Some h \<Rightarrow>
               if prefix ''www.'' h then drop 4 h
               else if str_includes h ''www.'' then replace_first ''www.'' [] h
               else h)"
  by (auto simp add: extractSource_def prefix_def replace_first_absent split: option.splits)

text \<open>
  The five examples of the source derivation.
\<close>

theorem extractSource_label_witness:
  "extractSource spec_hosts (blank_article\<lparr>site_name := Some ''X''\<rparr>) = ''X''
   \<and> extractSource spec_hosts (blank_article\<lparr>source_url := Some ''https://www.example.com/a''\<rparr>)
       = ''example.com''
   \<and> extractSource spec_hosts (blank_article\<lparr>source_url := Some ''https://blog.example.com/a''\<rparr>)
       = ''blog.example.com''
   \<and> extractSource spec_hosts blank_article = ''Unknown source''
   \<and> extractSource spec_hosts (blank_article\<lparr>source_url := Some ''not-a-url''\<rparr>)
       = ''Unknown source''"
  using extractSource_label [of spec_hosts "blank_article\<lparr>site_name := Some ''X''\<rparr>"]
  by (simp add: extractSource_def spec_hosts_def quiet_services_def blank_article_def truthy_def)

end
